theory Spec2Isabelle
  imports Main
begin

section \<open>Simple SVG (ssvg.js): the interception handler and its two wrappers\<close>

text \<open>
  The program is one proxy handler (\<open>SSVGProxyHandler\<close>, with a \<open>get\<close> and a \<open>set\<close> trap)
  and three small classes (\<open>SSVGProxy\<close>, \<open>SSVGElementProxy\<close>, \<open>SSVG\<close>). Everything it
  does is a call into the host: the browser's document object model and the JavaScript
  object model. The embedding keeps the program's functions as they are written and
  makes the host explicit: a store of objects, each with its own properties, the
  properties it inherits, and (for a document node) its DOM state.
\<close>

subsection \<open>Values, objects and the store\<close>

type_synonym ref = nat

text \<open>
  A reference is the index of its object in the store: a new object goes to the end of
  the store, and its reference is the length the store had. A property key is a string
  or a symbol. Strings are lists of 8-bit characters.
\<close>

datatype propkey = Name string | Symbol string

text \<open>
  JavaScript values. A number is \<open>Num n\<close> when its value is the integer \<open>n\<close> (both zeros
  are \<open>Num 0\<close>), \<open>NaN\<close>, or \<open>Other_number i\<close>: a non-integer or an infinity, named by an
  index. \<open>Ref r\<close> is an ordinary object (a host node or the \<open>SSVG\<close> instance),
  \<open>Handle r\<close> is a \<open>Proxy\<close> with target \<open>r\<close> and handler \<open>SSVGProxyHandler\<close>.
  \<open>Native m\<close> is the host's built-in function \<open>m\<close>; \<open>Creator instance isCreate elemName\<close>
  is the closure returned by the \<open>get\<close> trap, with its three captured variables;
  \<open>Bound f instance\<close> is \<open>f.bind(instance)\<close>.
\<close>

datatype jsval =
    Undefined
  | Null
  | Bool bool
  | Num int
  | NaN
  | Other_number nat
  | Str string
  | Ref ref
  | Handle ref
  | Native string
  | Creator ref bool string
  | Bound jsval ref

datatype error =
    TypeError
  | InvalidCharacterError
  | Dangling_reference
  | Unmodelled_call

text \<open>
  \<open>TypeError\<close> and \<open>InvalidCharacterError\<close> are the exceptions of the language and of
  the host. The other two make the model total: \<open>Dangling_reference\<close> is returned for a
  reference to no object of the store (no JavaScript program can hold one), and
  \<open>Unmodelled_call\<close> when the program would call a function that is neither the host's
  \<open>append\<close> nor its \<open>setAttribute\<close> under those names.
\<close>

text \<open>An own data property, as \<open>Object.getOwnPropertyDescriptor\<close> describes it.\<close>

record property =
  pval :: jsval
  writable :: bool
  configurable :: bool

text \<open>The DOM state of a node: what \<open>createElementNS\<close>, \<open>setAttribute\<close> and \<open>append\<close> touch.\<close>

record dom_node =
  namespaceURI :: string
  localName :: string
  attributes :: "(string \<times> string) list"
  childNodes :: "ref list"
  parentNode :: "ref option"

text \<open>
  An object: its own properties (data properties, in the order of their creation), the
  value each inherited property resolves to along its prototype chain, and its DOM
  state when it is a document node. Getters and setters are not modelled.
\<close>

record obj =
  own :: "(propkey \<times> property) list"
  inherited :: "(propkey \<times> jsval) list"
  dom :: "dom_node option"

type_synonym store = "obj list"

type_synonym 'a res = "store \<times> (error + 'a)"

text \<open>
  The host environment, as far as the program asks it: the own property names of
  \<open>window\<close>, which names \<open>createElementNS\<close> and \<open>setAttribute\<close> accept, how an object is
  coerced to a string, the string form of a number that does not print in plain decimal
  notation, and what a new element and a new plain object inherit.
\<close>

record host =
  window :: "string set"
  valid_element_name :: "string \<Rightarrow> bool"
  valid_attribute_name :: "string \<Rightarrow> bool"
  object_to_string :: "jsval \<Rightarrow> string"
  number_to_string :: "jsval \<Rightarrow> string"
  element_prototype :: "string \<Rightarrow> (propkey \<times> jsval) list"
  object_prototype :: "(propkey \<times> jsval) list"

definition lookup :: "store \<Rightarrow> ref \<Rightarrow> obj option" where
  "lookup s r = (if r < length s then Some (s ! r) else None)"

definition bind_res :: "'a res \<Rightarrow> (store \<Rightarrow> 'a \<Rightarrow> 'b res) \<Rightarrow> 'b res" where
  "bind_res m f = (case m of (s, Inl e) \<Rightarrow> (s, Inl e) | (s, Inr x) \<Rightarrow> f s x)"

subsection \<open>Strings\<close>

definition lower_letters :: string where
  "lower_letters = ''abcdefghijklmnopqrstuvwxyz''"

definition upper_letters :: string where
  "upper_letters = ''ABCDEFGHIJKLMNOPQRSTUVWXYZ''"

text \<open>The regular expression class \<open>\w\<close>: letters, digits and the underscore.\<close>

definition is_word_char :: "char \<Rightarrow> bool" where
  "is_word_char c = (c \<in> set (lower_letters @ upper_letters @ ''0123456789_''))"

text \<open>\<open>toUpperCase\<close> and \<open>toLowerCase\<close>, on the characters \<open>\w\<close> can match.\<close>

definition toUpperCase_char :: "char \<Rightarrow> char" where
  "toUpperCase_char c =
     (case map_of (zip lower_letters upper_letters) c of Some u \<Rightarrow> u | None \<Rightarrow> c)"

definition toLowerCase_char :: "char \<Rightarrow> char" where
  "toLowerCase_char c =
     (case map_of (zip upper_letters lower_letters) c of Some l \<Rightarrow> l | None \<Rightarrow> c)"

definition toLowerCase :: "string \<Rightarrow> string" where
  "toLowerCase w = map toLowerCase_char w"

text \<open>
  \<open>propName.match(/(create)?(\w+)/)\<close>. \<open>match_here\<close> tries the expression at the start of
  its argument: the optional group is greedy, so \<open>create\<close> is taken when a word character
  follows it, and given back otherwise. \<open>regex_match\<close> is the search for the leftmost
  position with a match; it returns the two groups (whether the first took part, and the
  text of the second), or \<open>None\<close> where \<open>match\<close> returns \<open>null\<close>.
\<close>

definition match_here :: "string \<Rightarrow> (bool \<times> string) option" where
  "match_here w =
     (if take 6 w = ''create'' \<and> takeWhile is_word_char (drop 6 w) \<noteq> []
      then Some (True, takeWhile is_word_char (drop 6 w))
      else if takeWhile is_word_char w \<noteq> []
      then Some (False, takeWhile is_word_char w)
      else None)"

fun regex_match :: "string \<Rightarrow> (bool \<times> string) option" where
  "regex_match [] = match_here []"
| "regex_match (c # w) =
     (case match_here (c # w) of Some g \<Rightarrow> Some g | None \<Rightarrow> regex_match w)"

text \<open>
  The interface name the trap looks for in \<open>window\<close>: \<open>SVG\<close>, then the token with its
  first character in upper case (\<open>elemName[0].toUpperCase() + elemName.slice(1)\<close>), then
  \<open>Element\<close>.
\<close>

definition className :: "string \<Rightarrow> string" where
  "className elemName =
     ''SVG'' @ (toUpperCase_char (hd elemName) # tl elemName) @ ''Element''"

definition svgns :: string where
  "svgns = ''http://www.w3.org/2000/svg''"

text \<open>
  The string form of a value, as the host coerces an attribute value. A primitive has
  the form the language gives it. For a number that is computed here only where it is
  the plain decimal notation of the value: for an integer of magnitude below \<open>2^53\<close>,
  the range in which every integer is a number and prints with all its digits. A
  larger integer-valued number prints rounded to its significant digits, and in
  exponent notation from \<open>1e21\<close> on; like the form of a non-integer, that is taken from
  \<open>number_to_string\<close>. An ordinary object or a function has the form the host gives it;
  a handle has none, since the coercion reads the property \<open>Symbol.toPrimitive\<close> from it
  and the \<open>get\<close> trap raises a \<open>TypeError\<close> for a symbol.
\<close>

fun decimal :: "nat \<Rightarrow> string" where
  "decimal n =
     (if n < 10 then [''0123456789'' ! n]
      else decimal (n div 10) @ [''0123456789'' ! (n mod 10)])"

declare decimal.simps [simp del]

fun string_form :: "host \<Rightarrow> jsval \<Rightarrow> string" where
  "string_form h Undefined = ''undefined''"
| "string_form h Null = ''null''"
| "string_form h (Bool b) = (if b then ''true'' else ''false'')"
| "string_form h (Num n) =
     (if abs n < 9007199254740992
      then (if n < 0 then ''-'' @ decimal (nat (- n)) else decimal (nat n))
      else number_to_string h (Num n))"
| "string_form h NaN = ''NaN''"
| "string_form h (Other_number i) = number_to_string h (Other_number i)"
| "string_form h (Str w) = w"
| "string_form h v = object_to_string h v"

fun is_handle :: "jsval \<Rightarrow> bool" where
  "is_handle (Handle r) = True"
| "is_handle v = False"

definition ToString :: "host \<Rightarrow> jsval \<Rightarrow> error + string" where
  "ToString h v = (if is_handle v then Inl TypeError else Inr (string_form h v))"

subsection \<open>The host: properties, nodes, attributes, children\<close>

text \<open>\<open>typeof v == 'function'\<close>\<close>

fun is_function :: "jsval \<Rightarrow> bool" where
  "is_function (Native m) = True"
| "is_function (Creator i c e) = True"
| "is_function (Bound f i) = True"
| "is_function v = False"

text \<open>Truthiness, as the engine reads the result of a trap.\<close>

fun truthy :: "jsval \<Rightarrow> bool" where
  "truthy Undefined = False"
| "truthy Null = False"
| "truthy (Bool b) = b"
| "truthy (Num n) = (n \<noteq> 0)"
| "truthy NaN = False"
| "truthy (Str w) = (w \<noteq> [])"
| "truthy v = True"

text \<open>An entry of a keyed list is replaced where it stands; a new key goes to the end.\<close>

fun put :: "'k \<Rightarrow> 'v \<Rightarrow> ('k \<times> 'v) list \<Rightarrow> ('k \<times> 'v) list" where
  "put k v [] = [(k, v)]"
| "put k v (e # es) = (if fst e = k then (k, v) # es else e # put k v es)"

text \<open>\<open>ob[k]\<close> on an ordinary object: the own property, else the inherited one, else \<open>undefined\<close>.\<close>

definition get_property :: "obj \<Rightarrow> propkey \<Rightarrow> jsval" where
  "get_property ob k =
     (case map_of (own ob) k of
        Some p \<Rightarrow> pval p
      | None \<Rightarrow> (case map_of (inherited ob) k of Some v \<Rightarrow> v | None \<Rightarrow> Undefined))"

text \<open>The two methods of every element that the program calls.\<close>

definition element_methods :: "(propkey \<times> jsval) list" where
  "element_methods =
     [(Name ''setAttribute'', Native ''setAttribute''), (Name ''append'', Native ''append'')]"

text \<open>\<open>document.createElementNS(ns, name)\<close>: a new node, with no attribute, child or parent.\<close>

definition createElementNS :: "host \<Rightarrow> store \<Rightarrow> string \<Rightarrow> string \<Rightarrow> ref res" where
  "createElementNS h s ns name =
     (if valid_element_name h name
      then (s @ [\<lparr>own = [],
                  inherited = element_methods @ element_prototype h name,
                  dom = Some \<lparr>namespaceURI = ns, localName = name, attributes = [],
                              childNodes = [], parentNode = None\<rparr>\<rparr>],
            Inr (length s))
      else (s, Inl InvalidCharacterError))"

definition update_dom :: "store \<Rightarrow> ref \<Rightarrow> (dom_node \<Rightarrow> dom_node) \<Rightarrow> store" where
  "update_dom s r f =
     (case lookup s r of
        Some ob \<Rightarrow> s[r := ob\<lparr>dom := map_option f (dom ob)\<rparr>]
      | None \<Rightarrow> s)"

definition dom_of :: "store \<Rightarrow> ref \<Rightarrow> dom_node option" where
  "dom_of s r = (case lookup s r of Some ob \<Rightarrow> dom ob | None \<Rightarrow> None)"

text \<open>
  The host's \<open>setAttribute\<close>, called on the object \<open>r\<close>: an object that is no element is
  refused, then the name and the value are coerced to strings (a symbol cannot be, nor
  a handle), the name is checked, and the value is stored in its string form.
\<close>

definition host_setAttribute :: "host \<Rightarrow> store \<Rightarrow> ref \<Rightarrow> propkey \<Rightarrow> jsval \<Rightarrow> unit res" where
  "host_setAttribute h s r k v =
     (case dom_of s r of
        None \<Rightarrow> (s, Inl TypeError)
      | Some d \<Rightarrow>
          (case k of
             Symbol y \<Rightarrow> (s, Inl TypeError)
           | Name name \<Rightarrow>
               (case ToString h v of
                  Inl e \<Rightarrow> (s, Inl e)
                | Inr w \<Rightarrow>
                    if valid_attribute_name h name
                    then (update_dom s r (\<lambda>d. d\<lparr>attributes := put name w (attributes d)\<rparr>),
                          Inr ())
                    else (s, Inl InvalidCharacterError))))"

text \<open>
  The host's \<open>append\<close>, called on the value \<open>this\<close> with one node: the node leaves the
  parent it has, if any, and becomes the last child of \<open>this\<close>. (The program only passes
  a node it has just created, so the host's check against cycles is left out.)
\<close>

definition host_append :: "store \<Rightarrow> jsval \<Rightarrow> ref \<Rightarrow> unit res" where
  "host_append s this elem =
     (case this of
        Ref p \<Rightarrow>
          (case (dom_of s p, dom_of s elem) of
             (Some dp, Some de) \<Rightarrow>
               (let s1 = (case parentNode de of
                            None \<Rightarrow> s
                          | Some q \<Rightarrow> update_dom s q (\<lambda>d. d\<lparr>childNodes := remove1 elem (childNodes d)\<rparr>));
                    s2 = update_dom s1 p (\<lambda>d. d\<lparr>childNodes := childNodes d @ [elem]\<rparr>);
                    s3 = update_dom s2 elem (\<lambda>d. d\<lparr>parentNode := Some p\<rparr>)
                in (s3, Inr ()))
           | _ \<Rightarrow> (s, Inl TypeError))
      | _ \<Rightarrow> (s, Inl TypeError))"

text \<open>
  \<open>Object.defineProperty(o, k, {value: v})\<close>: a new property is neither writable nor
  configurable; an existing one takes the value unless it is frozen with another one.
\<close>

definition defineProperty_value :: "store \<Rightarrow> ref \<Rightarrow> propkey \<Rightarrow> jsval \<Rightarrow> unit res" where
  "defineProperty_value s r k v =
     (case lookup s r of
        None \<Rightarrow> (s, Inl Dangling_reference)
      | Some ob \<Rightarrow>
          (case map_of (own ob) k of
             None \<Rightarrow>
               (s[r := ob\<lparr>own := own ob @ [(k, \<lparr>pval = v, writable = False, configurable = False\<rparr>)]\<rparr>],
                Inr ())
           | Some p \<Rightarrow>
               if configurable p \<or> writable p \<or> pval p = v
               then (s[r := ob\<lparr>own := put k (p\<lparr>pval := v\<rparr>) (own ob)\<rparr>], Inr ())
               else (s, Inl TypeError)))"

text \<open>
  \<open>r.setAttribute(k, v)\<close> as the program writes it: the method is looked up on the
  object first.
\<close>

definition call_setAttribute :: "host \<Rightarrow> store \<Rightarrow> ref \<Rightarrow> propkey \<Rightarrow> jsval \<Rightarrow> unit res" where
  "call_setAttribute h s r k v =
     (case lookup s r of
        None \<Rightarrow> (s, Inl Dangling_reference)
      | Some ob \<Rightarrow>
          (let f = get_property ob (Name ''setAttribute'') in
           if \<not> is_function f then (s, Inl TypeError)
           else if f = Native ''setAttribute'' then host_setAttribute h s r k v
           else (s, Inl Unmodelled_call)))"

subsection \<open>SSVGProxyHandler.get and the creator function\<close>

text \<open>
  The \<open>get\<close> trap, with \<open>instance\<close> the proxy's target. A symbol has no \<open>match\<close> method and
  \<open>null\<close> cannot be destructured: both raise a \<open>TypeError\<close>. The trap changes nothing, so
  it returns no store.
\<close>

definition SSVGProxyHandler_get :: "host \<Rightarrow> store \<Rightarrow> ref \<Rightarrow> propkey \<Rightarrow> error + jsval" where
  "SSVGProxyHandler_get h s instance propName =
     (case propName of
        Symbol y \<Rightarrow> Inl TypeError
      | Name name \<Rightarrow>
          (case regex_match name of
             None \<Rightarrow> Inl TypeError
           | Some (isCreate, elemName) \<Rightarrow>
               (let validElement = (className elemName \<in> window h);
                    elemName = toLowerCase elemName
                in if \<not> validElement
                   then (case lookup s instance of
                           None \<Rightarrow> Inl Dangling_reference
                         | Some ob \<Rightarrow>
                             (let prop = get_property ob propName
                              in if is_function prop then Inr (Bound prop instance)
                                 else Inr prop))
                   else Inr (Creator instance isCreate elemName))))"

text \<open>
  Reading a property of a handle: the engine calls the trap and then checks its result
  against the target. For an own property of the target that is neither configurable
  nor writable, the trap must report the property's value; a function the trap returns
  is a new object each time, so it never is that value.
\<close>

definition proxy_get :: "host \<Rightarrow> store \<Rightarrow> ref \<Rightarrow> propkey \<Rightarrow> error + jsval" where
  "proxy_get h s target k =
     (case SSVGProxyHandler_get h s target k of
        Inl e \<Rightarrow> Inl e
      | Inr v \<Rightarrow>
          (case lookup s target of
             None \<Rightarrow> Inl Dangling_reference
           | Some ob \<Rightarrow>
               (case map_of (own ob) k of
                  None \<Rightarrow> Inr v
                | Some p \<Rightarrow>
                    if \<not> configurable p \<and> \<not> writable p \<and> (is_function v \<or> v \<noteq> pval p)
                    then Inl TypeError
                    else Inr v)))"

text \<open>\<open>class SSVGElementProxy\<close>: the proxy has no \<open>defineProperty\<close> trap, so \<open>root\<close> is
  defined on the element itself.\<close>

definition SSVGElementProxy :: "store \<Rightarrow> ref \<Rightarrow> jsval res" where
  "SSVGElementProxy s element =
     bind_res (defineProperty_value s element (Name ''root'') (Ref element))
       (\<lambda>s' u. (s', Inr (Handle element)))"

text \<open>\<open>class SSVGProxy\<close>\<close>

definition SSVGProxy :: "store \<Rightarrow> ref \<Rightarrow> jsval res" where
  "SSVGProxy s ssvg = (s, Inr (Handle ssvg))"

text \<open>
  \<open>v.append(elem)\<close>, as in \<open>instance.root.append(elem)\<close>: \<open>append\<close> is read from \<open>v\<close>
  (through the trap when \<open>v\<close> is a handle) and called with \<open>v\<close> as \<open>this\<close>; a bound function
  is called with the object it was bound to.
\<close>

definition resolve_append :: "host \<Rightarrow> store \<Rightarrow> jsval \<Rightarrow> error + jsval" where
  "resolve_append h s v =
     (case v of
        Undefined \<Rightarrow> Inl TypeError
      | Null \<Rightarrow> Inl TypeError
      | Ref r \<Rightarrow>
          (case lookup s r of
             None \<Rightarrow> Inl Dangling_reference
           | Some ob \<Rightarrow> Inr (get_property ob (Name ''append'')))
      | Handle r \<Rightarrow> proxy_get h s r (Name ''append'')
      | _ \<Rightarrow> Inr Undefined)"

fun unbind :: "jsval \<Rightarrow> jsval \<Rightarrow> jsval \<times> jsval" where
  "unbind (Bound f i) this = unbind f (Ref i)"
| "unbind f this = (f, this)"

definition call_append :: "host \<Rightarrow> store \<Rightarrow> jsval \<Rightarrow> ref \<Rightarrow> unit res" where
  "call_append h s v elem =
     (case resolve_append h s v of
        Inl e \<Rightarrow> (s, Inl e)
      | Inr f \<Rightarrow>
          if \<not> is_function f then (s, Inl TypeError)
          else (case unbind f v of
                  (Native m, this) \<Rightarrow>
                    if m = ''append'' then host_append s this elem
                    else (s, Inl Unmodelled_call)
                | _ \<Rightarrow> (s, Inl Unmodelled_call)))"

text \<open>
  \<open>for (let [attrName, attrVal] of Object.entries(attrs)) elem.setAttribute(attrName, attrVal)\<close>,
  with the entries in the order \<open>Object.entries\<close> gives them.
\<close>

fun set_entries :: "host \<Rightarrow> store \<Rightarrow> ref \<Rightarrow> (string \<times> jsval) list \<Rightarrow> unit res" where
  "set_entries h s elem [] = (s, Inr ())"
| "set_entries h s elem ((attrName, attrVal) # attrs) =
     (case call_setAttribute h s elem (Name attrName) attrVal of
        (s', Inl e) \<Rightarrow> (s', Inl e)
      | (s', Inr u) \<Rightarrow> set_entries h s' elem attrs)"

text \<open>
  The default parameter \<open>attrs = {}\<close>: the argument is absent (\<open>None\<close>, so that \<open>attrs\<close> is the
  empty object) or an object, given by its entries.
\<close>

definition entries_of :: "(string \<times> jsval) list option \<Rightarrow> (string \<times> jsval) list" where
  "entries_of attrs_arg = (case attrs_arg of None \<Rightarrow> [] | Some attrs \<Rightarrow> attrs)"

text \<open>The creator function, closed over \<open>instance\<close>, \<open>isCreate\<close> and \<open>elemName\<close>.\<close>

definition creator ::
  "host \<Rightarrow> store \<Rightarrow> ref \<Rightarrow> bool \<Rightarrow> string \<Rightarrow> (string \<times> jsval) list option \<Rightarrow> jsval res" where
  "creator h s instance isCreate elemName attrs_arg =
     (let attrs = entries_of attrs_arg in
      bind_res (createElementNS h s svgns elemName) (\<lambda>s1 elem.
      bind_res (set_entries h s1 elem attrs) (\<lambda>s2 u.
      bind_res (if \<not> isCreate
                then (case lookup s2 instance of
                        None \<Rightarrow> (s2, Inl Dangling_reference)
                      | Some ob \<Rightarrow> call_append h s2 (get_property ob (Name ''root'')) elem)
                else (s2, Inr ())) (\<lambda>s3 u.
      SSVGElementProxy s3 elem))))"

text \<open>
  Calling a value (a creator function makes no use of \<open>this\<close>, so a bound one is called
  as it is), and \<open>handle.name(attrs)\<close>: the read goes through the proxy.
\<close>

definition call_function ::
  "host \<Rightarrow> store \<Rightarrow> jsval \<Rightarrow> (string \<times> jsval) list option \<Rightarrow> jsval res" where
  "call_function h s f attrs_arg =
     (case fst (unbind f Undefined) of
        Creator instance isCreate elemName \<Rightarrow> creator h s instance isCreate elemName attrs_arg
      | g \<Rightarrow> if is_function g then (s, Inl Unmodelled_call) else (s, Inl TypeError))"

definition call_method ::
  "host \<Rightarrow> store \<Rightarrow> ref \<Rightarrow> string \<Rightarrow> (string \<times> jsval) list option \<Rightarrow> jsval res" where
  "call_method h s target name attrs_arg =
     (case proxy_get h s target (Name name) of
        Inl e \<Rightarrow> (s, Inl e)
      | Inr f \<Rightarrow> call_function h s f attrs_arg)"

subsection \<open>SSVGProxyHandler.set\<close>

text \<open>The \<open>set\<close> trap. It has no \<open>return\<close> statement: its result is \<open>undefined\<close>.\<close>

definition SSVGProxyHandler_set ::
  "host \<Rightarrow> store \<Rightarrow> ref \<Rightarrow> propkey \<Rightarrow> jsval \<Rightarrow> jsval res" where
  "SSVGProxyHandler_set h s instance propName val =
     (case lookup s instance of
        None \<Rightarrow> (s, Inl Dangling_reference)
      | Some ob \<Rightarrow>
          (let desc = map_of (own ob) propName;
               as_attribute = bind_res (call_setAttribute h s instance propName val)
                                (\<lambda>s' u. (s', Inr Undefined))
           in case desc of
                None \<Rightarrow> as_attribute
              | Some p \<Rightarrow>
                  if writable p
                  then (s[instance := ob\<lparr>own := put propName (p\<lparr>pval := val\<rparr>) (own ob)\<rparr>],
                        Inr Undefined)
                  else as_attribute))"

text \<open>
  The assignment \<open>handle.k = v\<close>: the engine calls the trap; when the trap's result is
  not truthy the assignment has failed, which is a \<open>TypeError\<close> in strict mode code and
  is ignored otherwise.
\<close>

definition proxy_set :: "host \<Rightarrow> bool \<Rightarrow> store \<Rightarrow> ref \<Rightarrow> propkey \<Rightarrow> jsval \<Rightarrow> unit res" where
  "proxy_set h strict s target k v =
     bind_res (SSVGProxyHandler_set h s target k v)
       (\<lambda>s' r. if truthy r then (s', Inr ())
               else if strict then (s', Inl TypeError)
               else (s', Inr ()))"

subsection \<open>class SSVG\<close>

text \<open>
  \<open>new SSVG(attrs)\<close>: the instance is allocated, its field \<open>root\<close> is initialised with a new
  \<open>svg\<close> node (a class field is writable and configurable), the entries of \<open>attrs\<close> are
  set on \<open>this.root\<close>, and the constructor returns the proxy.
\<close>

definition SSVG :: "host \<Rightarrow> store \<Rightarrow> (string \<times> jsval) list option \<Rightarrow> jsval res" where
  "SSVG h s attrs_arg =
     (let attrs = entries_of attrs_arg;
          this = length s;
          s0 = s @ [\<lparr>own = [], inherited = object_prototype h, dom = None\<rparr>]
      in bind_res (createElementNS h s0 svgns ''svg'') (\<lambda>s1 root.
         let s2 = s1[this := (s1 ! this)\<lparr>own := [(Name ''root'',
                        \<lparr>pval = Ref root, writable = True, configurable = True\<rparr>)]\<rparr>]
         in bind_res (set_entries h s2 root attrs) (\<lambda>s3 u. SSVGProxy s3 this)))"

subsection \<open>Notions the properties are stated with\<close>

text \<open>
  A word token is a string the group \<open>(\w+)\<close> matches as a whole; it is create-marked when
  the expression would split it into the marker \<open>create\<close> and a shorter token.
\<close>

definition word_token :: "string \<Rightarrow> bool" where
  "word_token K = (K \<noteq> [] \<and> list_all is_word_char K)"

definition create_marked :: "string \<Rightarrow> bool" where
  "create_marked K = (take 6 K = ''create'' \<and> 6 < length K)"

text \<open>The target has an own property \<open>k\<close> that is neither configurable nor writable.\<close>

definition frozen_own :: "store \<Rightarrow> ref \<Rightarrow> propkey \<Rightarrow> bool" where
  "frozen_own s t k =
     (case lookup s t of
        None \<Rightarrow> False
      | Some ob \<Rightarrow>
          (case map_of (own ob) k of
             None \<Rightarrow> False
           | Some p \<Rightarrow> \<not> configurable p \<and> \<not> writable p))"

text \<open>
  The node \<open>t.root\<close>, when it is a host node whose \<open>append\<close> is the host's: the container of
  a session, and the node itself for an element that \<open>SSVGElementProxy\<close> has wrapped.
\<close>

definition root_container :: "store \<Rightarrow> ref \<Rightarrow> ref option" where
  "root_container s t =
     (case lookup s t of
        None \<Rightarrow> None
      | Some ob \<Rightarrow>
          (case get_property ob (Name ''root'') of
             Ref r \<Rightarrow>
               (case lookup s r of
                  None \<Rightarrow> None
                | Some c \<Rightarrow>
                    if dom c \<noteq> None \<and> get_property c (Name ''append'') = Native ''append''
                    then Some r else None)
           | _ \<Rightarrow> None))"

text \<open>The host accepts every entry: the name for an attribute, and the value has a string form.\<close>

definition accepted_entries :: "host \<Rightarrow> (string \<times> jsval) list \<Rightarrow> bool" where
  "accepted_entries h attrs =
     list_all (\<lambda>kv. valid_attribute_name h (fst kv) \<and> \<not> is_handle (snd kv)) attrs"

text \<open>The attribute list after the loop over the entries.\<close>

definition apply_entries ::
  "host \<Rightarrow> (string \<times> jsval) list \<Rightarrow> (string \<times> string) list \<Rightarrow> (string \<times> string) list" where
  "apply_entries h attrs as = foldl (\<lambda>as kv. put (fst kv) (string_form h (snd kv)) as) as attrs"

text \<open>
  The object a creator call leaves in the store, in three stages: as \<open>createElementNS\<close>
  makes it, after the loop over the entries, and as \<open>SSVGElementProxy\<close> returns it, with
  the parent it has then.
\<close>

definition new_element :: "host \<Rightarrow> string \<Rightarrow> obj" where
  "new_element h name =
     \<lparr>own = [], inherited = element_methods @ element_prototype h name,
      dom = Some \<lparr>namespaceURI = svgns, localName = name, attributes = [],
                  childNodes = [], parentNode = None\<rparr>\<rparr>"

definition with_attributes :: "host \<Rightarrow> string \<Rightarrow> (string \<times> jsval) list \<Rightarrow> obj" where
  "with_attributes h name attrs =
     \<lparr>own = [], inherited = element_methods @ element_prototype h name,
      dom = Some \<lparr>namespaceURI = svgns, localName = name,
                  attributes = apply_entries h attrs [],
                  childNodes = [], parentNode = None\<rparr>\<rparr>"

definition created_element ::
  "host \<Rightarrow> string \<Rightarrow> (string \<times> jsval) list \<Rightarrow> ref option \<Rightarrow> ref \<Rightarrow> obj" where
  "created_element h name attrs par n =
     \<lparr>own = [(Name ''root'', \<lparr>pval = Ref n, writable = False, configurable = False\<rparr>)],
      inherited = element_methods @ element_prototype h name,
      dom = Some \<lparr>namespaceURI = svgns, localName = name,
                  attributes = apply_entries h attrs [],
                  childNodes = [], parentNode = par\<rparr>\<rparr>"

text \<open>A node with one more last child.\<close>

definition adopt :: "ref \<Rightarrow> obj \<Rightarrow> obj" where
  "adopt n ob = ob\<lparr>dom := map_option (\<lambda>d. d\<lparr>childNodes := childNodes d @ [n]\<rparr>) (dom ob)\<rparr>"

text \<open>
  A small host for the examples: four element interfaces in \<open>window\<close>, names that start
  with a lower-case letter accepted for elements and non-empty names for attributes.
  Of the numbers that do not print in plain decimal notation it knows \<open>1e21\<close> and \<open>1.5\<close>,
  which is its \<open>Other_number 0\<close>.
  Its elements inherit a \<open>style\<close> property and a \<open>getAttribute\<close> method, its plain objects
  \<open>toString\<close>. \<open>session_store\<close> is the store after \<open>new SSVG()\<close> in the empty store: the
  instance is object 0 and its \<open>svg\<close> node is object 1.
\<close>

definition example_host :: host where
  "example_host =
     \<lparr>window = {''SVGCircleElement'', ''SVGGElement'', ''SVGStyleElement'', ''SVGAElement''},
      valid_element_name = (\<lambda>n. n \<noteq> [] \<and> hd n \<in> set lower_letters),
      valid_attribute_name = (\<lambda>n. n \<noteq> []),
      object_to_string = (\<lambda>v. ''[object Object]''),
      number_to_string =
        (\<lambda>v. if v = Num 1000000000000000000000 then ''1e+21''
             else if v = Other_number 0 then ''1.5''
             else ''Infinity''),
      element_prototype =
        (\<lambda>n. [(Name ''style'', Str ''CSSStyleDeclaration''),
              (Name ''getAttribute'', Native ''getAttribute'')]),
      object_prototype = [(Name ''toString'', Native ''toString'')]\<rparr>"

definition session_store :: store where
  "session_store = fst (SSVG example_host [] None)"

text \<open>\<open>circle_store\<close> is the store after \<open>session.circle()\<close> there: the circle is object 2.\<close>

definition circle_store :: store where
  "circle_store = fst (call_method example_host session_store 0 ''circle'' None)"

section \<open>Lemmas about the host and the creator function\<close>

lemma takeWhile_word: "list_all is_word_char w \<Longrightarrow> takeWhile is_word_char w = w"
  by (induction w) auto

lemma list_all_drop: "list_all P w \<Longrightarrow> list_all P (drop n w)"
  by (metis append_take_drop_id list_all_append)

lemma match_here_token:
  assumes "word_token K" "\<not> create_marked K"
  shows "match_here K = Some (False, K)"
proof -
  from assms(1) have all: "list_all is_word_char K" and ne: "K \<noteq> []"
    by (simp_all add: word_token_def)
  have d: "takeWhile is_word_char (drop 6 K) = drop 6 K"
    using all by (simp add: takeWhile_word list_all_drop)
  have "\<not> (take 6 K = ''create'' \<and> takeWhile is_word_char (drop 6 K) \<noteq> [])"
    using assms(2) by (auto simp: d create_marked_def)
  then show ?thesis
    using ne by (simp add: match_here_def takeWhile_word [OF all])
qed

lemma regex_match_token:
  assumes "word_token K" "\<not> create_marked K"
  shows "regex_match K = Some (False, K)"
proof (cases K)
  case Nil
  with assms(1) show ?thesis by (simp add: word_token_def)
next
  case (Cons c w)
  then show ?thesis using match_here_token [OF assms] by simp
qed

lemma regex_match_create:
  assumes "word_token K"
  shows "regex_match (''create'' @ K) = Some (True, K)"
proof -
  from assms have all: "list_all is_word_char K" and ne: "K \<noteq> []"
    by (simp_all add: word_token_def)
  have "match_here (''create'' @ K) = Some (True, K)"
    using ne by (simp add: match_here_def takeWhile_word [OF all])
  then show ?thesis by simp
qed

lemma accepted_entries_Nil [simp]: "accepted_entries h []"
  by (simp add: accepted_entries_def)

lemma lookup_append_old: "r < length s \<Longrightarrow> lookup (s @ xs) r = lookup s r"
  by (simp add: lookup_def nth_append)

lemma lookup_append_new: "lookup (s @ [x]) (length s) = Some x"
  by (simp add: lookup_def)

lemma lookup_Some_less: "lookup s r = Some ob \<Longrightarrow> r < length s \<and> s ! r = ob"
  by (auto simp: lookup_def split: if_splits)

lemma lookup_update_same: "r < length s \<Longrightarrow> lookup (s[r := x]) r = Some x"
  by (simp add: lookup_def)

lemma lookup_update_other: "r \<noteq> q \<Longrightarrow> lookup (s[q := x]) r = lookup s r"
  by (simp add: lookup_def)

lemma get_property_dom_update [simp]: "get_property (ob\<lparr>dom := d\<rparr>) k = get_property ob k"
  by (simp add: get_property_def split: option.splits)

lemma new_element_setAttribute:
  "get_property (new_element h name) (Name ''setAttribute'') = Native ''setAttribute''"
  by (simp add: new_element_def get_property_def element_methods_def)

lemma new_element_append:
  "get_property (new_element h name) (Name ''append'') = Native ''append''"
  by (simp add: new_element_def get_property_def element_methods_def)

lemma createElementNS_valid:
  "valid_element_name h name \<Longrightarrow>
   createElementNS h s svgns name = (s @ [new_element h name], Inr (length s))"
  by (simp add: createElementNS_def new_element_def)

text \<open>Setting one attribute on a node with the host's method.\<close>

lemma call_setAttribute_node:
  assumes "lookup s e = Some ob" "dom ob = Some d"
    and "get_property ob (Name ''setAttribute'') = Native ''setAttribute''"
    and "valid_attribute_name h name" "\<not> is_handle v"
  shows "call_setAttribute h s e (Name name) v =
           (s[e := ob\<lparr>dom := Some (d\<lparr>attributes := put name (string_form h v) (attributes d)\<rparr>)\<rparr>],
            Inr ())"
  using assms
  by (simp add: call_setAttribute_def host_setAttribute_def dom_of_def update_dom_def
      ToString_def)

lemma set_entries_node:
  assumes "lookup s e = Some ob" "dom ob = Some d"
    and "get_property ob (Name ''setAttribute'') = Native ''setAttribute''"
    and "accepted_entries h attrs"
  shows "set_entries h s e attrs =
           (s[e := ob\<lparr>dom := Some (d\<lparr>attributes := apply_entries h attrs (attributes d)\<rparr>)\<rparr>],
            Inr ())"
  using assms
proof (induction attrs arbitrary: s ob d)
  case Nil
  then have "s[e := ob\<lparr>dom := Some d\<rparr>] = s"
    by (metis lookup_Some_less list_update_id obj.surjective obj.update_convs(3) old.unit.exhaust)
  then show ?case using Nil by (simp add: apply_entries_def)
next
  case (Cons a attrs)
  obtain k v where a: "a = (k, v)" by (cases a)
  let ?d = "d\<lparr>attributes := put k (string_form h v) (attributes d)\<rparr>"
  let ?ob = "ob\<lparr>dom := Some ?d\<rparr>"
  let ?s = "s[e := ?ob]"
  have valid: "valid_attribute_name h k" "\<not> is_handle v"
    using Cons.prems(4) a by (simp_all add: accepted_entries_def)
  have step: "call_setAttribute h s e (Name k) v = (?s, Inr ())"
    using call_setAttribute_node [OF Cons.prems(1,2,3) valid] .
  have e: "e < length s" using Cons.prems(1) lookup_Some_less by blast
  have l: "lookup ?s e = Some ?ob" using e by (simp add: lookup_update_same)
  have rest: "set_entries h ?s e attrs =
      (?s[e := ?ob\<lparr>dom := Some (?d\<lparr>attributes := apply_entries h attrs (attributes ?d)\<rparr>)\<rparr>], Inr ())"
    using Cons.IH [OF l, of ?d] Cons.prems(3,4) by (simp add: accepted_entries_def)
  show ?case
    using step rest by (simp add: a apply_entries_def)
qed

lemma put_fresh: "k \<notin> fst ` set as \<Longrightarrow> put k v as = as @ [(k, v)]"
  by (induction as) auto

lemma apply_entries_distinct:
  "distinct (map fst attrs) \<Longrightarrow> fst ` set attrs \<inter> fst ` set as = {} \<Longrightarrow>
   apply_entries h attrs as = as @ map (\<lambda>kv. (fst kv, string_form h (snd kv))) attrs"
proof (induction attrs arbitrary: as)
  case Nil
  then show ?case by (simp add: apply_entries_def)
next
  case (Cons a attrs)
  have f: "put (fst a) (string_form h (snd a)) as = as @ [(fst a, string_form h (snd a))]"
    using Cons.prems(2) by (intro put_fresh) auto
  have "apply_entries h attrs (as @ [(fst a, string_form h (snd a))]) =
        (as @ [(fst a, string_form h (snd a))]) @ map (\<lambda>kv. (fst kv, string_form h (snd kv))) attrs"
    using Cons.prems by (intro Cons.IH) auto
  then show ?case using f by (simp add: apply_entries_def)
qed

lemma create_and_set:
  assumes "valid_element_name h name"
    and "accepted_entries h attrs"
  shows "bind_res (createElementNS h s svgns name) (\<lambda>s1 elem.
           bind_res (set_entries h s1 elem attrs) (\<lambda>s2 u. f s2 elem)) =
         f (s @ [with_attributes h name attrs]) (length s)"
proof -
  let ?s1 = "s @ [new_element h name]"
  have l: "lookup ?s1 (length s) = Some (new_element h name)"
    by (rule lookup_append_new)
  have d: "dom (new_element h name) =
      Some \<lparr>namespaceURI = svgns, localName = name, attributes = [],
            childNodes = [], parentNode = None\<rparr>"
    by (simp add: new_element_def)
  have "set_entries h ?s1 (length s) attrs = (s @ [with_attributes h name attrs], Inr ())"
    using set_entries_node [OF l d new_element_setAttribute assms(2)]
    by (simp add: new_element_def with_attributes_def)
  then show ?thesis
    by (simp add: createElementNS_valid [OF assms(1)] bind_res_def)
qed

lemma SSVGElementProxy_fresh:
  "SSVGElementProxy (s @ [\<lparr>own = [], inherited = i, dom = d\<rparr>]) (length s) =
     (s @ [\<lparr>own = [(Name ''root'', \<lparr>pval = Ref (length s), writable = False, configurable = False\<rparr>)],
            inherited = i, dom = d\<rparr>],
      Inr (Handle (length s)))"
  by (simp add: SSVGElementProxy_def defineProperty_value_def lookup_append_new bind_res_def)

lemma creator_create:
  assumes "valid_element_name h name"
    and "accepted_entries h (entries_of attrs_arg)"
  shows "creator h s i True name attrs_arg =
           (s @ [created_element h name (entries_of attrs_arg) None (length s)],
            Inr (Handle (length s)))"
proof -
  have "creator h s i True name attrs_arg =
        SSVGElementProxy (s @ [with_attributes h name (entries_of attrs_arg)]) (length s)"
    unfolding creator_def Let_def
    by (subst create_and_set [OF assms]) (simp add: bind_res_def)
  then show ?thesis
    by (simp add: with_attributes_def SSVGElementProxy_fresh created_element_def)
qed

lemma root_container_D:
  assumes "root_container s t = Some r"
  obtains ob c d where "lookup s t = Some ob" "get_property ob (Name ''root'') = Ref r"
    "lookup s r = Some c" "dom c = Some d" "get_property c (Name ''append'') = Native ''append''"
  using assms
  by (auto simp: root_container_def split: option.splits jsval.splits if_splits)

lemma call_append_fresh:
  assumes "lookup s r = Some c" "dom c = Some d"
    and "get_property c (Name ''append'') = Native ''append''"
  shows "call_append h (s @ [with_attributes h name attrs]) (Ref r) (length s) =
           (s[r := adopt (length s) c] @
              [\<lparr>own = [], inherited = element_methods @ element_prototype h name,
                dom = Some \<lparr>namespaceURI = svgns, localName = name,
                            attributes = apply_entries h attrs [],
                            childNodes = [], parentNode = Some r\<rparr>\<rparr>],
            Inr ())"
proof -
  have r: "r < length s" and c: "s ! r = c" using assms(1) lookup_Some_less by blast+
  let ?s = "s @ [with_attributes h name attrs]"
  have lr: "lookup ?s r = Some c" using r assms(1) by (simp add: lookup_append_old)
  have ln: "lookup ?s (length s) = Some (with_attributes h name attrs)"
    by (rule lookup_append_new)
  have res: "resolve_append h ?s (Ref r) = Inr (Native ''append'')"
    by (simp add: resolve_append_def lr assms(3))
  have ha: "host_append ?s (Ref r) (length s) =
      (s[r := adopt (length s) c] @
              [\<lparr>own = [], inherited = element_methods @ element_prototype h name,
                dom = Some \<lparr>namespaceURI = svgns, localName = name,
                            attributes = apply_entries h attrs [],
                            childNodes = [], parentNode = Some r\<rparr>\<rparr>],
            Inr ())"
    using r
    by (simp add: host_append_def dom_of_def lr ln assms(2) with_attributes_def
        update_dom_def lookup_def nth_append list_update_append adopt_def c)
  show ?thesis
    by (simp add: call_append_def res ha)
qed

lemma creator_attach:
  assumes "valid_element_name h name"
    and "accepted_entries h (entries_of attrs_arg)"
    and "root_container s t = Some r"
  shows "creator h s t False name attrs_arg =
           (s[r := adopt (length s) (s ! r)] @
              [created_element h name (entries_of attrs_arg) (Some r) (length s)],
            Inr (Handle (length s)))"
proof -
  from assms(3) obtain ob c d where t: "lookup s t = Some ob"
    and root: "get_property ob (Name ''root'') = Ref r"
    and r: "lookup s r = Some c" and d: "dom c = Some d"
    and app: "get_property c (Name ''append'') = Native ''append''"
    by (rule root_container_D)
  have tl: "t < length s" using t lookup_Some_less by blast
  have c: "s ! r = c" using r lookup_Some_less by blast
  let ?s2 = "s @ [with_attributes h name (entries_of attrs_arg)]"
  have lt: "lookup ?s2 t = Some ob" using tl t by (simp add: lookup_append_old)
  have len: "length (s[r := adopt (length s) c]) = length s" by simp
  have "creator h s t False name attrs_arg =
        bind_res (call_append h ?s2 (Ref r) (length s)) (\<lambda>s3 u. SSVGElementProxy s3 (length s))"
    unfolding creator_def Let_def
    by (subst create_and_set [OF assms(1,2)]) (simp add: lt root)
  also have "\<dots> = (s[r := adopt (length s) c] @
              [created_element h name (entries_of attrs_arg) (Some r) (length s)],
            Inr (Handle (length s)))"
    unfolding call_append_fresh [OF r d app]
    using SSVGElementProxy_fresh [of "s[r := adopt (length s) c]"]
    by (simp add: bind_res_def created_element_def)
  finally show ?thesis by (simp add: c)
qed

lemma SSVG_valid:
  assumes "valid_element_name h ''svg''"
    and "accepted_entries h (entries_of attrs_arg)"
  shows "SSVG h s attrs_arg =
           (s @ [\<lparr>own = [(Name ''root'', \<lparr>pval = Ref (Suc (length s)), writable = True,
                                          configurable = True\<rparr>)],
                  inherited = object_prototype h, dom = None\<rparr>,
                 with_attributes h ''svg'' (entries_of attrs_arg)],
            Inr (Handle (length s)))"
proof -
  let ?inst = "\<lparr>own = [(Name ''root'', \<lparr>pval = Ref (Suc (length s)), writable = True,
                                          configurable = True\<rparr>)],
                  inherited = object_prototype h, dom = None\<rparr>"
  let ?s2 = "s @ [?inst, new_element h ''svg'']"
  have l: "lookup ?s2 (Suc (length s)) = Some (new_element h ''svg'')"
    by (simp add: lookup_def nth_append)
  have d: "dom (new_element h ''svg'') =
      Some \<lparr>namespaceURI = svgns, localName = ''svg'', attributes = [],
            childNodes = [], parentNode = None\<rparr>"
    by (simp add: new_element_def)
  have "set_entries h ?s2 (Suc (length s)) (entries_of attrs_arg) =
          (s @ [?inst, with_attributes h ''svg'' (entries_of attrs_arg)], Inr ())"
    using set_entries_node [OF l d new_element_setAttribute assms(2)]
    by (simp add: new_element_def with_attributes_def list_update_append)
  then show ?thesis
    using createElementNS_valid [OF assms(1), of "s @ [\<lparr>own = [], inherited = object_prototype h, dom = None\<rparr>]"]
    by (simp add: SSVG_def Let_def bind_res_def SSVGProxy_def nth_append list_update_append)
qed

lemma session_store_eq:
  "session_store =
     [\<lparr>own = [(Name ''root'', \<lparr>pval = Ref 1, writable = True, configurable = True\<rparr>)],
       inherited = [(Name ''toString'', Native ''toString'')], dom = None\<rparr>,
      \<lparr>own = [],
       inherited = [(Name ''setAttribute'', Native ''setAttribute''),
                    (Name ''append'', Native ''append''),
                    (Name ''style'', Str ''CSSStyleDeclaration''),
                    (Name ''getAttribute'', Native ''getAttribute'')],
       dom = Some \<lparr>namespaceURI = svgns, localName = ''svg'', attributes = [],
                   childNodes = [], parentNode = None\<rparr>\<rparr>]"
proof -
  have "valid_element_name example_host ''svg''"
    by (simp add: example_host_def lower_letters_def)
  then show ?thesis
    unfolding session_store_def
    by (subst SSVG_valid)
       (simp_all add: entries_of_def with_attributes_def apply_entries_def example_host_def
          element_methods_def)
qed

lemma SSVGProxyHandler_get_creator:
  assumes "regex_match name = Some (isCreate, elemName)" "className elemName \<in> window h"
  shows "SSVGProxyHandler_get h s t (Name name) = Inr (Creator t isCreate (toLowerCase elemName))"
  using assms by (simp add: SSVGProxyHandler_get_def)

lemma proxy_get_creator:
  assumes "regex_match name = Some (isCreate, elemName)" "className elemName \<in> window h"
    and "lookup s t = Some ob" "\<not> frozen_own s t (Name name)"
  shows "proxy_get h s t (Name name) = Inr (Creator t isCreate (toLowerCase elemName))"
  using assms(3,4)
  by (auto simp: proxy_get_def SSVGProxyHandler_get_creator [OF assms(1,2)] frozen_own_def
      split: option.splits)

lemma regex_match_root: "regex_match ''root'' = Some (False, ''root'')"
  by (simp add: match_here_def is_word_char_def lower_letters_def)

lemma className_root: "className ''root'' = ''SVGRootElement''"
  by (simp add: className_def toUpperCase_char_def lower_letters_def upper_letters_def)

lemma proxy_get_root_created:
  assumes "''SVGRootElement'' \<notin> window h"
    and "lookup s n = Some (created_element h name attrs par n)"
  shows "proxy_get h s n (Name ''root'') = Inr (Ref n)"
  using assms
  by (simp add: proxy_get_def SSVGProxyHandler_get_def regex_match_root className_root
      get_property_def created_element_def del: regex_match.simps)

section \<open>The claims\<close>

text \<open>
  C1. For every known element-kind token \<open>K\<close> (a word token without the create marker whose
  interface name \<open>className K\<close> is an own property of \<open>window\<close>), the call \<open>session.K()\<close>
  creates a new node (its reference names no object of the store before the call) in
  the SVG namespace, whose local name is \<open>K\<close> in lower case; the node is the last child of
  the session's root container, with the container as its parent; and the call returns
  a handle on the new node whose \<open>root\<close> property reads as that node. The host is assumed
  to accept the name for an element and to have no interface \<open>SVGRootElement\<close>, and the
  session object to have no frozen own property named \<open>K\<close>.
\<close>

theorem kind_call_appends_to_root:
  assumes "word_token K" "\<not> create_marked K" "className K \<in> window h"
    and "valid_element_name h (toLowerCase K)"
    and "root_container s session = Some r"
    and "\<not> frozen_own s session (Name K)"
    and "''SVGRootElement'' \<notin> window h"
  shows "\<exists>s' d. call_method h s session K None = (s', Inr (Handle (length s)))
           \<and> dom_of s (length s) = None
           \<and> map_option localName (dom_of s' (length s)) = Some (toLowerCase K)
           \<and> map_option namespaceURI (dom_of s' (length s)) = Some svgns
           \<and> map_option parentNode (dom_of s' (length s)) = Some (Some r)
           \<and> dom_of s r = Some d
           \<and> map_option childNodes (dom_of s' r) = Some (childNodes d @ [length s])
           \<and> proxy_get h s' (length s) (Name ''root'') = Inr (Ref (length s))"
proof -
  from assms(5) obtain ob c d where t: "lookup s session = Some ob"
    and r: "lookup s r = Some c" and d: "dom c = Some d"
    by (rule root_container_D)
  have rl: "r < length s" and c: "s ! r = c" using r lookup_Some_less by blast+
  let ?n = "length s"
  let ?s' = "s[r := adopt ?n (s ! r)] @ [created_element h (toLowerCase K) [] (Some r) ?n]"
  have get: "proxy_get h s session (Name K) = Inr (Creator session False (toLowerCase K))"
    using proxy_get_creator [OF regex_match_token [OF assms(1,2)] assms(3) t assms(6)] .
  have call: "call_method h s session K None = (?s', Inr (Handle ?n))"
    using creator_attach [OF assms(4) _ assms(5), of None]
    by (simp add: call_method_def get call_function_def entries_of_def)
  have new: "lookup ?s' ?n = Some (created_element h (toLowerCase K) [] (Some r) ?n)"
    using lookup_append_new [of "s[r := adopt ?n (s ! r)]"] by simp
  have old: "lookup ?s' r = Some (adopt ?n c)"
    using rl by (simp add: lookup_def nth_append c)
  have dn: "dom_of ?s' ?n =
      Some \<lparr>namespaceURI = svgns, localName = toLowerCase K,
            attributes = apply_entries h [] [], childNodes = [], parentNode = Some r\<rparr>"
    using new by (simp add: dom_of_def created_element_def)
  have dr: "dom_of ?s' r = Some (d\<lparr>childNodes := childNodes d @ [?n]\<rparr>)"
    using old by (simp add: dom_of_def adopt_def d)
  have d0: "dom_of s ?n = None" by (simp add: dom_of_def lookup_def)
  have d1: "dom_of s r = Some d" by (simp add: dom_of_def r d)
  have root: "proxy_get h ?s' ?n (Name ''root'') = Inr (Ref ?n)"
    using proxy_get_root_created [OF assms(7) new] .
  show ?thesis
    apply (rule exI [of _ ?s'], rule exI [of _ d])
    apply (intro conjI)
           apply (rule call)
          apply (rule d0)
         apply (simp add: dn)
        apply (simp add: dn)
       apply (simp add: dn)
      apply (rule d1)
     apply (simp add: dr)
    apply (rule root)
    done
qed

theorem kind_call_appends_to_root_witness:
  "\<exists>s'. call_method example_host session_store 0 ''circle'' None = (s', Inr (Handle 2))
     \<and> map_option localName (dom_of s' 2) = Some ''circle''
     \<and> map_option parentNode (dom_of s' 2) = Some (Some 1)
     \<and> map_option childNodes (dom_of s' 1) = Some [2]
     \<and> proxy_get example_host s' 2 (Name ''root'') = Inr (Ref 2)"
proof -
  have 1: "word_token ''circle''"
    by (simp add: word_token_def is_word_char_def lower_letters_def)
  have 2: "\<not> create_marked ''circle''" by (simp add: create_marked_def)
  have 3: "className ''circle'' \<in> window example_host"
    by (simp add: className_def toUpperCase_char_def lower_letters_def upper_letters_def
        example_host_def)
  have 4: "valid_element_name example_host (toLowerCase ''circle'')"
    by (simp add: example_host_def toLowerCase_def toLowerCase_char_def lower_letters_def
        upper_letters_def)
  have 5: "root_container session_store 0 = Some 1"
    by (simp add: session_store_eq root_container_def lookup_def get_property_def)
  have 6: "\<not> frozen_own session_store 0 (Name ''circle'')"
    by (simp add: session_store_eq frozen_own_def lookup_def)
  have 7: "''SVGRootElement'' \<notin> window example_host" by (simp add: example_host_def)
  have 8: "toLowerCase ''circle'' = ''circle''"
    by (simp add: toLowerCase_def toLowerCase_char_def lower_letters_def upper_letters_def)
  have 9: "length session_store = 2" by (simp add: session_store_eq)
  have 10: "dom_of session_store (Suc 0) = Some \<lparr>namespaceURI = svgns, localName = ''svg'', attributes = [],
                   childNodes = [], parentNode = None\<rparr>"
    by (simp add: session_store_eq dom_of_def lookup_def)
  show ?thesis
    using kind_call_appends_to_root [OF 1 2 3 4 5 6 7]
    by (auto simp: 8 9 10)
qed

lemma proxy_get_root_own:
  assumes "''SVGRootElement'' \<notin> window h"
    and "lookup s t = Some ob" "map_of (own ob) (Name ''root'') = Some p"
    and "\<not> is_function (pval p)"
  shows "proxy_get h s t (Name ''root'') = Inr (pval p)"
  using assms
  by (simp add: proxy_get_def SSVGProxyHandler_get_def regex_match_root className_root
      get_property_def del: regex_match.simps)

lemma creator_returns_handle:
  assumes "creator h s i c e a = (s', Inr v)"
  shows "v = Handle (length s)"
  using assms
  by (auto simp: creator_def bind_res_def createElementNS_def SSVGElementProxy_def Let_def
      split: if_splits prod.splits sum.splits)

lemma apply_entries_Nil [simp]: "apply_entries h [] as = as"
  by (simp add: apply_entries_def)

text \<open>
  C2. For every known element-kind token \<open>K\<close>, the call \<open>handle.createK()\<close> creates a new
  node of local name \<open>K\<close> in lower case, with no parent, child or attribute. The store
  after the call is the store before it with the new object at its end: no node has
  gained a child, the new node is appended nowhere. The call returns a handle on the
  new node, whose \<open>root\<close> reads as that node; and whatever the marker, a creator of this
  kind that returns, returns the handle on the node it has created. The host is
  assumed to accept the name and to have no interface \<open>SVGRootElement\<close>, and the target
  to have no frozen own property of the accessed name.
\<close>

theorem create_call_detached:
  assumes "word_token K" "className K \<in> window h"
    and "valid_element_name h (toLowerCase K)"
    and "lookup s t = Some ob"
    and "\<not> frozen_own s t (Name (''create'' @ K))"
    and "''SVGRootElement'' \<notin> window h"
  shows "\<exists>new d. call_method h s t (''create'' @ K) None = (s @ [new], Inr (Handle (length s)))
           \<and> dom new = Some d
           \<and> localName d = toLowerCase K \<and> namespaceURI d = svgns
           \<and> parentNode d = None \<and> childNodes d = [] \<and> attributes d = []
           \<and> proxy_get h (s @ [new]) (length s) (Name ''root'') = Inr (Ref (length s))
           \<and> (\<forall>i c a s' v. creator h s i c (toLowerCase K) a = (s', Inr v)
                  \<longrightarrow> v = Handle (length s))"
proof -
  let ?n = "length s"
  let ?new = "created_element h (toLowerCase K) [] None ?n"
  have get: "proxy_get h s t (Name (''create'' @ K)) = Inr (Creator t True (toLowerCase K))"
    using proxy_get_creator [OF regex_match_create [OF assms(1)] assms(2) assms(4) assms(5)] .
  have call: "call_method h s t (''create'' @ K) None = (s @ [?new], Inr (Handle ?n))"
    unfolding call_method_def get
    using creator_create [OF assms(3), of None s t]
    by (simp add: call_function_def entries_of_def)
  have new: "lookup (s @ [?new]) ?n = Some ?new" by (rule lookup_append_new)
  have root: "proxy_get h (s @ [?new]) ?n (Name ''root'') = Inr (Ref ?n)"
    using proxy_get_root_created [OF assms(6) new] .
  have d: "dom ?new = Some \<lparr>namespaceURI = svgns, localName = toLowerCase K, attributes = [],
                              childNodes = [], parentNode = None\<rparr>"
    by (simp add: created_element_def)
  show ?thesis
    apply (rule exI [of _ ?new])
    apply (rule exI [of _ "\<lparr>namespaceURI = svgns, localName = toLowerCase K, attributes = [],
                              childNodes = [], parentNode = None\<rparr>"])
    apply (intro conjI)
            apply (rule call)
           apply (rule d)
          apply simp
         apply simp
        apply simp
       apply simp
      apply simp
     apply (rule root)
    apply (blast dest: creator_returns_handle)
    done
qed

lemma word_circle: "word_token ''circle''"
  by (simp add: word_token_def is_word_char_def lower_letters_def)

lemma word_Circle: "word_token ''Circle''"
  by (simp add: word_token_def is_word_char_def lower_letters_def upper_letters_def)

lemma className_circle: "className ''circle'' = ''SVGCircleElement''"
  by (simp add: className_def toUpperCase_char_def lower_letters_def upper_letters_def)

lemma className_Circle: "className ''Circle'' = ''SVGCircleElement''"
  by (simp add: className_def toUpperCase_char_def lower_letters_def upper_letters_def)

lemma lower_circle: "toLowerCase ''circle'' = ''circle''"
  by (simp add: toLowerCase_def toLowerCase_char_def lower_letters_def upper_letters_def)

lemma lower_Circle: "toLowerCase ''Circle'' = ''circle''"
  by (simp add: toLowerCase_def toLowerCase_char_def lower_letters_def upper_letters_def)

lemma example_window:
  "window example_host = {''SVGCircleElement'', ''SVGGElement'', ''SVGStyleElement'', ''SVGAElement''}"
  by (simp add: example_host_def)

lemma example_element_name: "valid_element_name example_host n = (n \<noteq> [] \<and> hd n \<in> set lower_letters)"
  by (simp add: example_host_def)

lemma example_attribute_name: "valid_attribute_name example_host n = (n \<noteq> [])"
  by (simp add: example_host_def)

lemma session_store_length: "length session_store = 2"
  by (simp add: session_store_eq)

lemma session_store_0:
  "lookup session_store 0 =
     Some \<lparr>own = [(Name ''root'', \<lparr>pval = Ref 1, writable = True, configurable = True\<rparr>)],
           inherited = [(Name ''toString'', Native ''toString'')], dom = None\<rparr>"
  by (simp add: session_store_eq lookup_def)

theorem create_call_detached_witness:
  "\<exists>new d. call_method example_host session_store 0 ''createCircle'' None =
              (session_store @ [new], Inr (Handle 2))
     \<and> dom new = Some d \<and> localName d = ''circle'' \<and> parentNode d = None
     \<and> proxy_get example_host (session_store @ [new]) 2 (Name ''root'') = Inr (Ref 2)"
proof -
  have 2: "className ''Circle'' \<in> window example_host"
    by (simp add: className_Circle example_window)
  have 3: "valid_element_name example_host (toLowerCase ''Circle'')"
    by (simp add: lower_Circle example_element_name lower_letters_def)
  have 5: "\<not> frozen_own session_store 0 (Name (''create'' @ ''Circle''))"
    by (simp add: frozen_own_def session_store_0)
  have 6: "''SVGRootElement'' \<notin> window example_host" by (simp add: example_window)
  show ?thesis
    using create_call_detached [OF word_Circle 2 3 session_store_0 5 6]
    by (simp add: lower_Circle session_store_length) blast
qed


lemma entries_string_map:
  assumes "distinct (map fst attrs)"
  shows "apply_entries h attrs [] = map (\<lambda>(k, v). (k, string_form h v)) attrs"
  using apply_entries_distinct [OF assms, of "[]" h] by (simp add: case_prod_beta)

text \<open>
  C5. A creator call with an attribute mapping (entries with distinct keys, in the
  mapping's order) leaves the new node with exactly these attributes, each value in its
  string form, in that order. The host is assumed to accept the element name and every
  entry (its name, and its value has a string form), and a creator that attaches needs
  a root to attach to. The string form is the language's: plain decimal notation for
  an integer below \<open>2^53\<close> in magnitude, and for every other number what the language
  prints for it.
\<close>

theorem creator_applies_entries:
  assumes "valid_element_name h name"
    and "accepted_entries h attrs"
    and "distinct (map fst attrs)"
    and "isCreate \<or> root_container s t \<noteq> None"
  shows "\<exists>s'. creator h s t isCreate name (Some attrs) = (s', Inr (Handle (length s)))
           \<and> map_option attributes (dom_of s' (length s)) =
               Some (map (\<lambda>(k, v). (k, string_form h v)) attrs)"
proof (cases isCreate)
  case True
  let ?new = "created_element h name attrs None (length s)"
  have "creator h s t True name (Some attrs) = (s @ [?new], Inr (Handle (length s)))"
    using creator_create [OF assms(1), of "Some attrs" s t] assms(2)
    by (simp add: entries_of_def)
  moreover have "map_option attributes (dom_of (s @ [?new]) (length s)) =
      Some (apply_entries h attrs [])"
    by (simp add: dom_of_def lookup_append_new created_element_def)
  ultimately show ?thesis
    using True entries_string_map [OF assms(3)] by simp
next
  case False
  with assms(4) obtain r where r: "root_container s t = Some r" by auto
  let ?new = "created_element h name attrs (Some r) (length s)"
  let ?old = "s[r := adopt (length s) (s ! r)]"
  have "creator h s t False name (Some attrs) = (?old @ [?new], Inr (Handle (length s)))"
    using creator_attach [OF assms(1) _ r, of "Some attrs"] assms(2)
    by (simp add: entries_of_def)
  moreover have "map_option attributes (dom_of (?old @ [?new]) (length s)) =
      Some (apply_entries h attrs [])"
    using lookup_append_new [of ?old ?new]
    by (simp add: dom_of_def created_element_def)
  ultimately show ?thesis
    using False entries_string_map [OF assms(3)] by simp
qed

lemma example_number:
  "number_to_string example_host v =
     (if v = Num 1000000000000000000000 then ''1e+21''
      else if v = Other_number 0 then ''1.5'' else ''Infinity'')"
  by (simp add: example_host_def)

text \<open>Where the string form of a number is computed, and where it is the language's.\<close>

lemma string_form_plain:
  "abs n < 9007199254740992 \<Longrightarrow>
   string_form h (Num n) = (if n < 0 then ''-'' @ decimal (nat (- n)) else decimal (nat n))"
  by simp

lemma string_form_not_plain:
  "9007199254740992 \<le> abs n \<Longrightarrow> string_form h (Num n) = number_to_string h (Num n)"
  by simp

lemma decimal_50: "decimal 50 = ''50''"
  by (simp add: decimal.simps [of 50] decimal.simps [of 5])

lemma decimal_100: "decimal 100 = ''100''"
  by (simp add: decimal.simps [of 100] decimal.simps [of 10] decimal.simps [of "Suc 0"])

theorem creator_applies_entries_witness:
  "\<exists>s'. creator example_host session_store 0 False ''circle''
            (Some [(''cx'', Num 100), (''r'', Num 50), (''fill'', Str ''red''),
             (''width'', Num 1000000000000000000000), (''opacity'', Other_number 0)]) =
          (s', Inr (Handle 2))
     \<and> map_option attributes (dom_of s' 2) =
          Some [(''cx'', ''100''), (''r'', ''50''), (''fill'', ''red''),
                (''width'', ''1e+21''), (''opacity'', ''1.5'')]"
proof -
  have 1: "valid_element_name example_host ''circle''"
    by (simp add: example_element_name lower_letters_def)
  have 2: "accepted_entries example_host [(''cx'', Num 100), (''r'', Num 50), (''fill'', Str ''red''),
             (''width'', Num 1000000000000000000000), (''opacity'', Other_number 0)]"
    by (simp add: accepted_entries_def example_attribute_name)
  have 3: "distinct (map fst [(''cx'', Num 100), (''r'', Num 50), (''fill'', Str ''red''),
             (''width'', Num 1000000000000000000000), (''opacity'', Other_number 0)])"
    by simp
  have 4: "False \<or> root_container session_store 0 \<noteq> None"
    by (simp add: root_container_def session_store_0 get_property_def)
       (simp add: session_store_eq lookup_def get_property_def)
  show ?thesis
    using creator_applies_entries [OF 1 2 3 4]
    by (simp add: session_store_length decimal_50 decimal_100 example_number)
qed

lemma root_container_created:
  assumes "lookup s n = Some ob"
    and "own ob = [(Name ''root'', \<lparr>pval = Ref n, writable = False, configurable = False\<rparr>)]"
    and "inherited ob = element_methods @ rest" "dom ob \<noteq> None"
  shows "root_container s n = Some n"
  using assms
  by (simp add: root_container_def get_property_def element_methods_def)

text \<open>
  C6. Auto-attach targets the node of the handle that was accessed. After
  \<open>let g = session.K1(); let c = g.K2(attrs)\<close>, for known element-kind tokens \<open>K1\<close> and \<open>K2\<close>
  (in the claim \<open>g\<close> and \<open>circle\<close>): \<open>g.root\<close> and \<open>c.root\<close> read as the two new nodes, the
  parent of \<open>c.root\<close> is \<open>g.root\<close>, whose only child it is, and the parent of \<open>g.root\<close> is the
  session's root container, which has gained \<open>g.root\<close> as its last child and nothing else.
\<close>

theorem nested_creation_attaches_to_handle_node:
  assumes "word_token K1" "\<not> create_marked K1" "className K1 \<in> window h"
    and "valid_element_name h (toLowerCase K1)"
    and "word_token K2" "\<not> create_marked K2" "className K2 \<in> window h"
    and "valid_element_name h (toLowerCase K2)"
    and "accepted_entries h (entries_of attrs_arg)"
    and "root_container s session = Some r"
    and "\<not> frozen_own s session (Name K1)"
    and "''SVGRootElement'' \<notin> window h"
  shows "\<exists>s1 s2 d. call_method h s session K1 None = (s1, Inr (Handle (length s)))
           \<and> call_method h s1 (length s) K2 attrs_arg = (s2, Inr (Handle (Suc (length s))))
           \<and> proxy_get h s2 (length s) (Name ''root'') = Inr (Ref (length s))
           \<and> proxy_get h s2 (Suc (length s)) (Name ''root'') = Inr (Ref (Suc (length s)))
           \<and> map_option parentNode (dom_of s2 (Suc (length s))) = Some (Some (length s))
           \<and> map_option parentNode (dom_of s2 (length s)) = Some (Some r)
           \<and> map_option childNodes (dom_of s2 (length s)) = Some [Suc (length s)]
           \<and> dom_of s r = Some d
           \<and> map_option childNodes (dom_of s2 r) = Some (childNodes d @ [length s])"
proof -
  from assms(10) obtain ob c d where t: "lookup s session = Some ob"
    and r: "lookup s r = Some c" and d: "dom c = Some d"
    by (rule root_container_D)
  have rl: "r < length s" and c: "s ! r = c" using r lookup_Some_less by blast+
  let ?g = "length s"
  let ?c = "Suc (length s)"
  let ?G = "created_element h (toLowerCase K1) [] (Some r) ?g"
  let ?s1 = "s[r := adopt ?g c] @ [?G]"
  let ?C = "created_element h (toLowerCase K2) (entries_of attrs_arg) (Some ?g) ?c"
  let ?s2 = "?s1[?g := adopt ?c ?G] @ [?C]"
  have len1: "length ?s1 = ?c" by simp
  have get1: "proxy_get h s session (Name K1) = Inr (Creator session False (toLowerCase K1))"
    using proxy_get_creator [OF regex_match_token [OF assms(1,2)] assms(3) t assms(11)] .
  have call1: "call_method h s session K1 None = (?s1, Inr (Handle ?g))"
    unfolding call_method_def get1
    using creator_attach [OF assms(4) _ assms(10), of None]
    by (simp add: call_function_def entries_of_def c)
  have lg: "lookup ?s1 ?g = Some ?G"
    using lookup_append_new [of "s[r := adopt ?g c]" ?G] by simp
  have rc: "root_container ?s1 ?g = Some ?g"
    by (rule root_container_created [OF lg]) (simp_all add: created_element_def)
  have "K2 \<noteq> ''root''"
    using assms(7,12) className_root by auto
  then have nf: "\<not> frozen_own ?s1 ?g (Name K2)"
    using lg by (simp add: frozen_own_def created_element_def)
  have get2: "proxy_get h ?s1 ?g (Name K2) = Inr (Creator ?g False (toLowerCase K2))"
    using proxy_get_creator [OF regex_match_token [OF assms(5,6)] assms(7) lg nf] .
  have g1: "?s1 ! ?g = ?G" using lg lookup_Some_less by blast
  have call2: "call_method h ?s1 ?g K2 attrs_arg = (?s2, Inr (Handle ?c))"
    unfolding call_method_def get2
    using creator_attach [OF assms(8,9) rc]
    by (simp add: call_function_def g1 del: list_update.simps)
  have s2: "?s2 = s[r := adopt ?g c] @ [adopt ?c ?G, ?C]"
    by (simp add: list_update_append)
  have lc: "lookup ?s2 ?c = Some ?C" unfolding s2 by (simp add: lookup_def nth_append)
  have lg2: "lookup ?s2 ?g = Some (adopt ?c ?G)" unfolding s2 by (simp add: lookup_def nth_append)
  have lr2: "lookup ?s2 r = Some (adopt ?g c)"
    unfolding s2 using rl by (simp add: lookup_def nth_append)
  have rootc: "proxy_get h ?s2 ?c (Name ''root'') = Inr (Ref ?c)"
    using proxy_get_root_created [OF assms(12) lc] .
  have rootg: "proxy_get h ?s2 ?g (Name ''root'') = Inr (Ref ?g)"
    using proxy_get_root_own [OF assms(12) lg2, of "\<lparr>pval = Ref ?g, writable = False, configurable = False\<rparr>"]
    by (simp add: adopt_def created_element_def)
  have pc: "map_option parentNode (dom_of ?s2 ?c) = Some (Some ?g)"
    using lc by (simp add: dom_of_def created_element_def)
  have pg: "map_option parentNode (dom_of ?s2 ?g) = Some (Some r)"
    using lg2 by (simp add: dom_of_def created_element_def adopt_def)
  have cg: "map_option childNodes (dom_of ?s2 ?g) = Some [?c]"
    using lg2 by (simp add: dom_of_def created_element_def adopt_def)
  have d1: "dom_of s r = Some d" by (simp add: dom_of_def r d)
  have cr: "map_option childNodes (dom_of ?s2 r) = Some (childNodes d @ [?g])"
    using lr2 by (simp add: dom_of_def adopt_def d)
  show ?thesis
    apply (rule exI [of _ ?s1], rule exI [of _ ?s2], rule exI [of _ d])
    apply (intro conjI)
            apply (rule call1)
           apply (rule call2)
          apply (rule rootg)
         apply (rule rootc)
        apply (rule pc)
       apply (rule pg)
      apply (rule cg)
     apply (rule d1)
    apply (rule cr)
    done
qed


lemma word_g: "word_token ''g''"
  by (simp add: word_token_def is_word_char_def lower_letters_def)

lemma className_g: "className ''g'' = ''SVGGElement''"
  by (simp add: className_def toUpperCase_char_def lower_letters_def upper_letters_def)

lemma lower_g: "toLowerCase ''g'' = ''g''"
  by (simp add: toLowerCase_def toLowerCase_char_def lower_letters_def upper_letters_def)

lemma session_root_container: "root_container session_store 0 = Some 1"
  by (simp add: root_container_def session_store_0 get_property_def)
     (simp add: session_store_eq lookup_def get_property_def)

theorem nested_creation_attaches_to_handle_node_witness:
  "\<exists>s1 s2. call_method example_host session_store 0 ''g'' None = (s1, Inr (Handle 2))
     \<and> call_method example_host s1 2 ''circle'' (Some [(''cx'', Num 1)]) = (s2, Inr (Handle 3))
     \<and> proxy_get example_host s2 2 (Name ''root'') = Inr (Ref 2)
     \<and> proxy_get example_host s2 3 (Name ''root'') = Inr (Ref 3)
     \<and> map_option parentNode (dom_of s2 3) = Some (Some 2)
     \<and> map_option parentNode (dom_of s2 2) = Some (Some 1)
     \<and> map_option childNodes (dom_of s2 2) = Some [3]
     \<and> map_option childNodes (dom_of s2 1) = Some [2]"
proof -
  have 1: "\<not> create_marked ''g''" by (simp add: create_marked_def)
  have 2: "className ''g'' \<in> window example_host" by (simp add: className_g example_window)
  have 3: "valid_element_name example_host (toLowerCase ''g'')"
    by (simp add: lower_g example_element_name lower_letters_def)
  have 4: "\<not> create_marked ''circle''" by (simp add: create_marked_def)
  have 5: "className ''circle'' \<in> window example_host"
    by (simp add: className_circle example_window)
  have 6: "valid_element_name example_host (toLowerCase ''circle'')"
    by (simp add: lower_circle example_element_name lower_letters_def)
  have 7: "accepted_entries example_host (entries_of (Some [(''cx'', Num 1)]))"
    by (simp add: entries_of_def accepted_entries_def example_attribute_name)
  have 8: "\<not> frozen_own session_store 0 (Name ''g'')"
    by (simp add: frozen_own_def session_store_0)
  have 9: "''SVGRootElement'' \<notin> window example_host" by (simp add: example_window)
  have 10: "dom_of session_store (Suc 0) =
      Some \<lparr>namespaceURI = svgns, localName = ''svg'', attributes = [],
            childNodes = [], parentNode = None\<rparr>"
    by (simp add: session_store_eq dom_of_def lookup_def)
  have 11: "Suc (Suc (Suc 0)) = 3" by simp
  show ?thesis
    using nested_creation_attaches_to_handle_node
      [OF word_g 1 2 3 word_circle 4 5 6 7 session_root_container 8 9]
    by (auto simp: session_store_length 10 11)
qed

text \<open>
  C8. \<open>new SSVG(attrs)\<close> returns a handle on a new instance and creates one new \<open>svg\<close> node
  in the SVG namespace; reading \<open>root\<close> on the handle returns that node, the container
  that creator calls on the session attach to. A read returns a value and no store:
  it creates no node, and every read in the same store returns the same reference. The
  host is assumed to accept the names and to have no interface \<open>SVGRootElement\<close>.
\<close>

theorem session_root_is_container:
  assumes "valid_element_name h ''svg''"
    and "accepted_entries h (entries_of attrs_arg)"
    and "''SVGRootElement'' \<notin> window h"
  shows "\<exists>s. SSVG h s0 attrs_arg = (s, Inr (Handle (length s0)))
           \<and> dom_of s0 (Suc (length s0)) = None
           \<and> map_option localName (dom_of s (Suc (length s0))) = Some ''svg''
           \<and> map_option namespaceURI (dom_of s (Suc (length s0))) = Some svgns
           \<and> proxy_get h s (length s0) (Name ''root'') = Inr (Ref (Suc (length s0)))
           \<and> root_container s (length s0) = Some (Suc (length s0))"
proof -
  let ?p = "\<lparr>pval = Ref (Suc (length s0)), writable = True, configurable = True\<rparr>"
  let ?inst = "\<lparr>own = [(Name ''root'', ?p)], inherited = object_prototype h, dom = None\<rparr>"
  let ?svg = "with_attributes h ''svg'' (entries_of attrs_arg)"
  let ?s = "s0 @ [?inst, ?svg]"
  have new: "SSVG h s0 attrs_arg = (?s, Inr (Handle (length s0)))"
    by (rule SSVG_valid [OF assms(1,2)])
  have li: "lookup ?s (length s0) = Some ?inst" by (simp add: lookup_def nth_append)
  have ls: "lookup ?s (Suc (length s0)) = Some ?svg" by (simp add: lookup_def nth_append)
  have d0: "dom_of s0 (Suc (length s0)) = None" by (simp add: dom_of_def lookup_def)
  have ln: "map_option localName (dom_of ?s (Suc (length s0))) = Some ''svg''"
    using ls by (simp add: dom_of_def with_attributes_def)
  have ns: "map_option namespaceURI (dom_of ?s (Suc (length s0))) = Some svgns"
    using ls by (simp add: dom_of_def with_attributes_def)
  have root: "proxy_get h ?s (length s0) (Name ''root'') = Inr (Ref (Suc (length s0)))"
    using proxy_get_root_own [OF assms(3) li, of ?p] by simp
  have rc: "root_container ?s (length s0) = Some (Suc (length s0))"
    using li ls
    by (simp add: root_container_def get_property_def with_attributes_def element_methods_def)
  show ?thesis
    apply (rule exI [of _ ?s])
    apply (intro conjI)
         apply (rule new)
        apply (rule d0)
       apply (rule ln)
      apply (rule ns)
     apply (rule root)
    apply (rule rc)
    done
qed

theorem session_root_is_container_witness:
  "\<exists>s. SSVG example_host [] (Some [(''width'', Num 100)]) = (s, Inr (Handle 0))
     \<and> map_option localName (dom_of s 1) = Some ''svg''
     \<and> proxy_get example_host s 0 (Name ''root'') = Inr (Ref 1)"
proof -
  have 1: "valid_element_name example_host ''svg''"
    by (simp add: example_element_name lower_letters_def)
  have 2: "accepted_entries example_host (entries_of (Some [(''width'', Num 100)]))"
    by (simp add: entries_of_def accepted_entries_def example_attribute_name)
  have 3: "''SVGRootElement'' \<notin> window example_host" by (simp add: example_window)
  show ?thesis
    using session_root_is_container [OF 1 2 3, of "[]"] by auto
qed

lemma circle_store_eq:
  "circle_store =
     [\<lparr>own = [(Name ''root'', \<lparr>pval = Ref 1, writable = True, configurable = True\<rparr>)],
       inherited = [(Name ''toString'', Native ''toString'')], dom = None\<rparr>,
      \<lparr>own = [],
       inherited = [(Name ''setAttribute'', Native ''setAttribute''),
                    (Name ''append'', Native ''append''),
                    (Name ''style'', Str ''CSSStyleDeclaration''),
                    (Name ''getAttribute'', Native ''getAttribute'')],
       dom = Some \<lparr>namespaceURI = svgns, localName = ''svg'', attributes = [],
                   childNodes = [2], parentNode = None\<rparr>\<rparr>,
      \<lparr>own = [(Name ''root'', \<lparr>pval = Ref 2, writable = False, configurable = False\<rparr>)],
       inherited = [(Name ''setAttribute'', Native ''setAttribute''),
                    (Name ''append'', Native ''append''),
                    (Name ''style'', Str ''CSSStyleDeclaration''),
                    (Name ''getAttribute'', Native ''getAttribute'')],
       dom = Some \<lparr>namespaceURI = svgns, localName = ''circle'', attributes = [],
                   childNodes = [], parentNode = Some 1\<rparr>\<rparr>]"
proof -
  have c: "\<not> create_marked ''circle''" by (simp add: create_marked_def)
  have w: "className ''circle'' \<in> window example_host"
    by (simp add: className_circle example_window)
  have f: "\<not> frozen_own session_store 0 (Name ''circle'')"
    by (simp add: frozen_own_def session_store_0)
  have v: "valid_element_name example_host ''circle''"
    by (simp add: example_element_name lower_letters_def)
  have get: "proxy_get example_host session_store 0 (Name ''circle'') =
      Inr (Creator 0 False ''circle'')"
    using proxy_get_creator [OF regex_match_token [OF word_circle c] w session_store_0 f]
    by (simp add: lower_circle)
  have "creator example_host session_store 0 False ''circle'' None =
      (session_store[1 := adopt (length session_store) (session_store ! 1)] @
         [created_element example_host ''circle'' (entries_of None) (Some 1) (length session_store)],
       Inr (Handle (length session_store)))"
    by (rule creator_attach [OF v _ session_root_container]) (simp add: entries_of_def)
  then show ?thesis
    unfolding circle_store_def call_method_def get
    by (simp add: call_function_def)
       (simp add: session_store_eq adopt_def created_element_def entries_of_def
          element_methods_def example_host_def)
qed

lemma circle_store_2:
  "lookup circle_store 2 =
     Some \<lparr>own = [(Name ''root'', \<lparr>pval = Ref 2, writable = False, configurable = False\<rparr>)],
       inherited = [(Name ''setAttribute'', Native ''setAttribute''),
                    (Name ''append'', Native ''append''),
                    (Name ''style'', Str ''CSSStyleDeclaration''),
                    (Name ''getAttribute'', Native ''getAttribute'')],
       dom = Some \<lparr>namespaceURI = svgns, localName = ''circle'', attributes = [],
                   childNodes = [], parentNode = Some 1\<rparr>\<rparr>"
  by (simp add: circle_store_eq lookup_def)

lemma map_of_put: "map_of (put k v ps) k = Some v"
  by (induction ps) auto

lemma map_of_put_other: "j \<noteq> k \<Longrightarrow> map_of (put k v ps) j = map_of ps j"
  by (induction ps) auto

lemma set_trap_attribute:
  assumes "lookup s t = Some ob" "dom ob = Some d"
    and "get_property ob (Name ''setAttribute'') = Native ''setAttribute''"
    and "\<forall>p. map_of (own ob) (Name name) = Some p \<longrightarrow> \<not> writable p"
    and "valid_attribute_name h name" "\<not> is_handle v"
  shows "SSVGProxyHandler_set h s t (Name name) v =
           (s[t := ob\<lparr>dom := Some (d\<lparr>attributes := put name (string_form h v) (attributes d)\<rparr>)\<rparr>],
            Inr Undefined)"
  using assms(4)
  by (auto simp: SSVGProxyHandler_set_def assms(1) Let_def bind_res_def
      call_setAttribute_node [OF assms(1,2,3,5,6)] split: option.splits)

text \<open>A symbol key and a handle as attribute value are refused with a \<open>TypeError\<close>.\<close>

lemma proxy_get_symbol: "proxy_get h s t (Symbol y) = Inl TypeError"
  by (simp add: proxy_get_def SSVGProxyHandler_get_def)

lemma setAttribute_handle_value:
  assumes "dom_of s r = Some d"
  shows "host_setAttribute h s r (Name name) (Handle t) = (s, Inl TypeError)"
  using assms by (simp add: host_setAttribute_def ToString_def)

lemma set_trap_property:
  assumes "lookup s t = Some ob" "map_of (own ob) k = Some p" "writable p"
  shows "SSVGProxyHandler_set h s t k v =
           (s[t := ob\<lparr>own := put k (p\<lparr>pval := v\<rparr>) (own ob)\<rparr>], Inr Undefined)"
  using assms by (simp add: SSVGProxyHandler_set_def Let_def)

lemma proxy_set_undefined:
  assumes "SSVGProxyHandler_set h s t k v = (s', Inr Undefined)"
  shows "proxy_set h strict s t k v = (s', if strict then Inl TypeError else Inr ())"
  using assms by (simp add: proxy_set_def bind_res_def)

lemma set_trap_result:
  assumes "SSVGProxyHandler_set h s t k v = (s', Inr r)"
  shows "r = Undefined"
  using assms
  by (auto simp: SSVGProxyHandler_set_def Let_def bind_res_def
      split: option.splits if_splits prod.splits sum.splits)

text \<open>
  C3 (as amended). For every element handle, that is a handle whose target is a host
  node with the host's \<open>setAttribute\<close>, and every property name that is not a writable
  own property of the node, the assignment \<open>handle.name = value\<close> is forwarded to
  \<open>setAttribute\<close>: when the host accepts the name and the value has a string form, the
  store after the assignment, in strict and in sloppy code, has the attribute \<open>name\<close>
  with the string form of \<open>value\<close> (in place if the node had it, else at the end), and
  the node's own properties are as before. So \<open>handle.r = 50\<close> on a circle handle reads
  back as \<open>"50"\<close>, and \<open>handle.class = 'foo'\<close> stores an attribute with the literal name
  \<open>class\<close>. The string form is the language's: plain decimal notation for an integer
  below \<open>2^53\<close> in magnitude, and for every other number what the language prints for
  it (\<open>"1e+21"\<close> for \<open>1e21\<close>, \<open>"1.5"\<close> for \<open>1.5\<close>).
\<close>

theorem element_assignment_sets_attribute:
  assumes "lookup s t = Some ob" "dom ob = Some d"
    and "get_property ob (Name ''setAttribute'') = Native ''setAttribute''"
    and "\<forall>p. map_of (own ob) (Name name) = Some p \<longrightarrow> \<not> writable p"
    and "valid_attribute_name h name" "\<not> is_handle v"
  shows "\<exists>s'. SSVGProxyHandler_set h s t (Name name) v = (s', Inr Undefined)
           \<and> fst (proxy_set h strict s t (Name name) v) = s'
           \<and> map_option attributes (dom_of s' t) =
               Some (put name (string_form h v) (attributes d))
           \<and> map_option (\<lambda>d. map_of (attributes d) name) (dom_of s' t) =
               Some (Some (string_form h v))
           \<and> map_option own (lookup s' t) = Some (own ob)"
proof -
  let ?ob = "ob\<lparr>dom := Some (d\<lparr>attributes := put name (string_form h v) (attributes d)\<rparr>)\<rparr>"
  let ?s = "s[t := ?ob]"
  have trap: "SSVGProxyHandler_set h s t (Name name) v = (?s, Inr Undefined)"
    by (rule set_trap_attribute [OF assms])
  have tl: "t < length s" using assms(1) lookup_Some_less by blast
  have l: "lookup ?s t = Some ?ob" using tl by (simp add: lookup_update_same)
  show ?thesis
    apply (rule exI [of _ ?s])
    apply (intro conjI)
        apply (rule trap)
       apply (simp add: proxy_set_undefined [OF trap])
      apply (simp add: dom_of_def l)
     apply (simp add: dom_of_def l map_of_put)
    apply (simp add: l)
    done
qed

theorem element_assignment_sets_attribute_witness:
  "(\<exists>s'. fst (proxy_set example_host True circle_store 2 (Name ''r'') (Num 50)) = s'
      \<and> map_option (\<lambda>d. map_of (attributes d) ''r'') (dom_of s' 2) = Some (Some ''50''))
   \<and> (\<exists>s'. fst (proxy_set example_host True circle_store 2 (Name ''class'') (Str ''foo'')) = s'
      \<and> map_option attributes (dom_of s' 2) = Some [(''class'', ''foo'')])
   \<and> (\<exists>s'. fst (proxy_set example_host True circle_store 2 (Name ''r'')
                 (Num 1000000000000000000000)) = s'
      \<and> map_option attributes (dom_of s' 2) = Some [(''r'', ''1e+21'')])
   \<and> (\<exists>s'. fst (proxy_set example_host True circle_store 2 (Name ''r'') (Other_number 0)) = s'
      \<and> map_option attributes (dom_of s' 2) = Some [(''r'', ''1.5'')])"
proof -
  have d: "dom \<lparr>own = [(Name ''root'', \<lparr>pval = Ref 2, writable = False, configurable = False\<rparr>)],
       inherited = [(Name ''setAttribute'', Native ''setAttribute''),
                    (Name ''append'', Native ''append''),
                    (Name ''style'', Str ''CSSStyleDeclaration''),
                    (Name ''getAttribute'', Native ''getAttribute'')],
       dom = Some \<lparr>namespaceURI = svgns, localName = ''circle'', attributes = [],
                   childNodes = [], parentNode = Some 1\<rparr>\<rparr> =
     Some \<lparr>namespaceURI = svgns, localName = ''circle'', attributes = [],
                   childNodes = [], parentNode = Some 1\<rparr>"
    by simp
  show ?thesis
    using element_assignment_sets_attribute [OF circle_store_2 d, of "''r''" example_host "Num 50" True]
      element_assignment_sets_attribute [OF circle_store_2 d, of "''class''" example_host "Str ''foo''" True]
      element_assignment_sets_attribute [OF circle_store_2 d, of "''r''" example_host
        "Num 1000000000000000000000" True]
      element_assignment_sets_attribute [OF circle_store_2 d, of "''r''" example_host
        "Other_number 0" True]
    by (simp add: get_property_def example_attribute_name decimal_50 example_number)
qed

text \<open>
  The claim as it was stated speaks of every handle. On the handle that \<open>new SSVG()\<close>
  returns the target is the \<open>SSVG\<close> instance, which has no \<open>setAttribute\<close>: for \<open>r\<close>, not an
  own property of the instance, the assignment raises a \<open>TypeError\<close> from inside the trap,
  also in sloppy code, and the store is as before: no attribute has been set.
\<close>

theorem session_assignment_counterexample:
  "snd (SSVG example_host [] None) = Inr (Handle 0)
   \<and> map_of (own (session_store ! 0)) (Name ''r'') = None
   \<and> proxy_set example_host False session_store 0 (Name ''r'') (Num 50) =
       (session_store, Inl TypeError)"
proof -
  have 1: "valid_element_name example_host ''svg''"
    by (simp add: example_element_name lower_letters_def)
  have a: "snd (SSVG example_host [] None) = Inr (Handle 0)"
    by (subst SSVG_valid [OF 1]) (simp_all add: entries_of_def)
  have b: "map_of (own (session_store ! 0)) (Name ''r'') = None"
    by (simp add: session_store_eq)
  have c: "proxy_set example_host False session_store 0 (Name ''r'') (Num 50) =
       (session_store, Inl TypeError)"
    by (simp add: proxy_set_def SSVGProxyHandler_set_def session_store_0 Let_def bind_res_def
        call_setAttribute_def get_property_def)
  show ?thesis using a b c by simp
qed


lemma dom_of_own_update:
  assumes "lookup s t = Some ob"
  shows "dom_of (s[t := ob\<lparr>own := ps\<rparr>]) r = dom_of s r"
proof (cases "r = t")
  case True
  have "t < length s" using assms lookup_Some_less by blast
  then show ?thesis using True assms by (simp add: dom_of_def lookup_update_same)
next
  case False
  then show ?thesis by (simp add: dom_of_def lookup_update_other)
qed

text \<open>
  C4. On every handle, an assignment to a key that is a writable own property of the
  target is an ordinary assignment: the property has the new value afterwards, and the
  DOM state of every object, with it every attribute list, is as before. (The trap
  returns \<open>undefined\<close>; sloppy code goes on.) The \<open>root\<close> field of an \<open>SSVG\<close> instance is such a
  property.
\<close>

theorem writable_own_property_assignment:
  assumes "lookup s t = Some ob" "map_of (own ob) k = Some p" "writable p"
  shows "\<exists>s'. SSVGProxyHandler_set h s t k v = (s', Inr Undefined)
           \<and> proxy_set h False s t k v = (s', Inr ())
           \<and> map_option (\<lambda>ob'. get_property ob' k) (lookup s' t) = Some v
           \<and> (\<forall>r. dom_of s' r = dom_of s r)"
proof -
  let ?ob = "ob\<lparr>own := put k (p\<lparr>pval := v\<rparr>) (own ob)\<rparr>"
  let ?s = "s[t := ?ob]"
  have trap: "SSVGProxyHandler_set h s t k v = (?s, Inr Undefined)"
    by (rule set_trap_property [OF assms])
  have tl: "t < length s" using assms(1) lookup_Some_less by blast
  have l: "lookup ?s t = Some ?ob" using tl by (simp add: lookup_update_same)
  have g: "get_property ?ob k = v" by (simp add: get_property_def map_of_put)
  show ?thesis
    apply (rule exI [of _ ?s])
    apply (intro conjI)
       apply (rule trap)
      apply (simp add: proxy_set_undefined [OF trap])
     apply (simp add: l g)
    apply (simp add: dom_of_own_update [OF assms(1)])
    done
qed

theorem writable_own_property_assignment_witness:
  "\<exists>s'. proxy_set example_host False session_store 0 (Name ''root'') (Str ''mine'') = (s', Inr ())
     \<and> map_option (\<lambda>ob'. get_property ob' (Name ''root'')) (lookup s' 0) = Some (Str ''mine'')
     \<and> dom_of s' 1 = dom_of session_store 1"
  using writable_own_property_assignment [OF session_store_0,
      of "Name ''root''" "\<lparr>pval = Ref 1, writable = True, configurable = True\<rparr>"
         example_host "Str ''mine''"]
  by auto

text \<open>
  On an element handle \<open>root\<close> is not writable, since \<open>SSVGElementProxy\<close> defines it with
  a value only: an assignment to it sets an attribute of that name and leaves the
  property as it is.
\<close>

lemma element_root_assignment_sets_attribute:
  "\<exists>s'. proxy_set example_host False circle_store 2 (Name ''root'') (Str ''mine'') = (s', Inr ())
     \<and> map_option attributes (dom_of s' 2) = Some [(''root'', ''mine'')]
     \<and> map_option (\<lambda>ob'. get_property ob' (Name ''root'')) (lookup s' 2) = Some (Ref 2)"
proof -
  let ?d = "\<lparr>namespaceURI = svgns, localName = ''circle'', attributes = [],
             childNodes = [], parentNode = Some 1\<rparr>"
  have "SSVGProxyHandler_set example_host circle_store 2 (Name ''root'') (Str ''mine'') =
      (circle_store[2 := (the (lookup circle_store 2))\<lparr>dom := Some (?d\<lparr>attributes :=
          put ''root'' (string_form example_host (Str ''mine'')) (attributes ?d)\<rparr>)\<rparr>], Inr Undefined)"
    unfolding circle_store_2 option.sel
    by (rule set_trap_attribute [OF circle_store_2])
       (simp_all add: get_property_def example_attribute_name)
  then show ?thesis
    by (simp add: proxy_set_undefined circle_store_2)
       (simp add: circle_store_eq dom_of_def lookup_def get_property_def)
qed

text \<open>
  C7. For a property name in which the regular expression finds a token whose interface
  name is not in \<open>window\<close>, the read is no error: it returns what the name resolves to on
  the target, bound to the target when it is a function; for a name the target neither
  has nor inherits that is \<open>undefined\<close>. (The engine refuses the bound copy of a function
  held by a frozen own property of the target, which is excluded here.)
\<close>

theorem unknown_kind_falls_through:
  assumes "regex_match name = Some (isCreate, elemName)"
    and "className elemName \<notin> window h"
    and "lookup s t = Some ob"
    and "\<not> (frozen_own s t (Name name) \<and> is_function (get_property ob (Name name)))"
  shows "proxy_get h s t (Name name) =
           Inr (if is_function (get_property ob (Name name))
                then Bound (get_property ob (Name name)) t
                else get_property ob (Name name))
         \<and> (map_of (own ob) (Name name) = None \<and> map_of (inherited ob) (Name name) = None
              \<longrightarrow> proxy_get h s t (Name name) = Inr Undefined)"
proof -
  have trap: "SSVGProxyHandler_get h s t (Name name) =
      Inr (if is_function (get_property ob (Name name))
           then Bound (get_property ob (Name name)) t
           else get_property ob (Name name))"
    using assms(1,2,3) by (simp add: SSVGProxyHandler_get_def Let_def)
  have main: "proxy_get h s t (Name name) =
      Inr (if is_function (get_property ob (Name name))
           then Bound (get_property ob (Name name)) t
           else get_property ob (Name name))"
    using assms(3,4)
    by (auto simp: proxy_get_def trap frozen_own_def get_property_def split: option.splits)
  have "get_property ob (Name name) = Undefined"
    if "map_of (own ob) (Name name) = None" "map_of (inherited ob) (Name name) = None"
    using that by (simp add: get_property_def)
  then show ?thesis using main by auto
qed

theorem unknown_kind_falls_through_witness:
  "proxy_get example_host session_store 0 (Name ''bogus'') = Inr Undefined
   \<and> proxy_get example_host session_store 0 (Name ''toString'') =
       Inr (Bound (Native ''toString'') 0)"
proof -
  have b: "regex_match ''bogus'' = Some (False, ''bogus'')"
    by (simp add: match_here_def is_word_char_def lower_letters_def)
  have bc: "className ''bogus'' \<notin> window example_host"
    by (simp add: className_def toUpperCase_char_def lower_letters_def upper_letters_def
        example_window)
  have bf: "\<not> (frozen_own session_store 0 (Name ''bogus'') \<and>
      is_function (get_property (the (lookup session_store 0)) (Name ''bogus'')))"
    by (simp add: frozen_own_def session_store_0)
  have t: "regex_match ''toString'' = Some (False, ''toString'')"
    by (simp add: match_here_def is_word_char_def lower_letters_def upper_letters_def)
  have tc: "className ''toString'' \<notin> window example_host"
    by (simp add: className_def toUpperCase_char_def lower_letters_def upper_letters_def
        example_window)
  have tf: "\<not> (frozen_own session_store 0 (Name ''toString'') \<and>
      is_function (get_property (the (lookup session_store 0)) (Name ''toString'')))"
    by (simp add: frozen_own_def session_store_0)
  show ?thesis
    using unknown_kind_falls_through [OF b bc session_store_0 bf [unfolded session_store_0 option.sel]]
      unknown_kind_falls_through [OF t tc session_store_0 tf [unfolded session_store_0 option.sel]]
    by (simp add: get_property_def)
qed

text \<open>
  C9. The validity test comes before the property lookup: for a word token without the
  create marker whose interface name is in \<open>window\<close>, the read returns the creator
  function, whatever the target has or inherits under that name (a frozen own property
  of that name apart, for which the engine refuses any other value).
\<close>

theorem kind_name_shadows_property:
  assumes "word_token P" "\<not> create_marked P" "className P \<in> window h"
    and "lookup s t = Some ob" "\<not> frozen_own s t (Name P)"
  shows "proxy_get h s t (Name P) = Inr (Creator t False (toLowerCase P))"
  using proxy_get_creator [OF regex_match_token [OF assms(1,2)] assms(3,4,5)] .

theorem kind_name_shadows_property_witness:
  "get_property (circle_store ! 2) (Name ''style'') = Str ''CSSStyleDeclaration''
   \<and> proxy_get example_host circle_store 2 (Name ''style'') = Inr (Creator 2 False ''style'')"
proof -
  have 1: "word_token ''style''"
    by (simp add: word_token_def is_word_char_def lower_letters_def)
  have 2: "\<not> create_marked ''style''" by (simp add: create_marked_def)
  have 3: "className ''style'' \<in> window example_host"
    by (simp add: className_def toUpperCase_char_def lower_letters_def upper_letters_def
        example_window)
  have 4: "\<not> frozen_own circle_store 2 (Name ''style'')"
    by (simp add: frozen_own_def circle_store_2)
  have 5: "toLowerCase ''style'' = ''style''"
    by (simp add: toLowerCase_def toLowerCase_char_def lower_letters_def upper_letters_def)
  have 6: "get_property (circle_store ! 2) (Name ''style'') = Str ''CSSStyleDeclaration''"
    by (simp add: circle_store_eq get_property_def)
  show ?thesis
    using kind_name_shadows_property [OF 1 2 3 circle_store_2 4] 6 by (simp add: 5)
qed

text \<open>
  C10. The \<open>set\<close> trap never reports success: whenever it returns, it returns \<open>undefined\<close>,
  and the assignment in strict mode code then raises a \<open>TypeError\<close> in the store the trap
  has left, with the property written or the attribute set. No assignment through a
  handle completes normally in strict mode code (where the trap itself raises, its
  exception is the outcome).
\<close>

theorem set_trap_never_reports_success:
  "(\<forall>s' r. SSVGProxyHandler_set h s t k v = (s', Inr r)
       \<longrightarrow> r = Undefined \<and> proxy_set h True s t k v = (s', Inl TypeError))
   \<and> (\<forall>s' u. proxy_set h True s t k v \<noteq> (s', Inr u))"
proof -
  have a: "r = Undefined \<and> proxy_set h True s t k v = (s', Inl TypeError)"
    if "SSVGProxyHandler_set h s t k v = (s', Inr r)" for s' r
  proof -
    have r: "r = Undefined" using that by (rule set_trap_result)
    with that show ?thesis by (simp add: proxy_set_undefined)
  qed
  have b: "proxy_set h True s t k v \<noteq> (s', Inr u)" for s' u
  proof (cases "SSVGProxyHandler_set h s t k v")
    case (Pair s1 res)
    show ?thesis
    proof (cases res)
      case (Inl e)
      with Pair show ?thesis by (simp add: proxy_set_def bind_res_def)
    next
      case (Inr r)
      with Pair a [of s1 r] show ?thesis by simp
    qed
  qed
  show ?thesis using a b by blast
qed

theorem set_trap_never_reports_success_witness:
  "\<exists>s'. proxy_set example_host True circle_store 2 (Name ''r'') (Num 50) = (s', Inl TypeError)
     \<and> map_option attributes (dom_of circle_store 2) = Some []
     \<and> map_option attributes (dom_of s' 2) = Some [(''r'', ''50'')]"
proof -
  let ?d = "\<lparr>namespaceURI = svgns, localName = ''circle'', attributes = [],
             childNodes = [], parentNode = Some 1\<rparr>"
  let ?s = "circle_store[2 := (the (lookup circle_store 2))\<lparr>dom := Some (?d\<lparr>attributes :=
          put ''r'' (string_form example_host (Num 50)) (attributes ?d)\<rparr>)\<rparr>]"
  have trap: "SSVGProxyHandler_set example_host circle_store 2 (Name ''r'') (Num 50) =
      (?s, Inr Undefined)"
    unfolding circle_store_2 option.sel
    by (rule set_trap_attribute [OF circle_store_2])
       (simp_all add: get_property_def example_attribute_name)
  have "proxy_set example_host True circle_store 2 (Name ''r'') (Num 50) = (?s, Inl TypeError)"
    using set_trap_never_reports_success [of example_host circle_store 2 "Name ''r''" "Num 50"] trap
    by blast
  moreover have "map_option attributes (dom_of circle_store 2) = Some []"
    by (simp add: dom_of_def circle_store_2)
  moreover have "map_option attributes (dom_of ?s 2) = Some [(''r'', ''50'')]"
    by (simp add: circle_store_2 decimal_50) (simp add: circle_store_eq dom_of_def lookup_def)
  ultimately show ?thesis by blast
qed

end
